theory Spec2Isabelle
  imports Complex_Main "HOL-Library.Sublist"
begin

section \<open>Layout manager of a scene-graph container\<close>

text \<open>
  A shallow embedding of \<^verbatim>\<open>src/LayoutManager/LayoutManager.ts\<close> and of the helper
  \<^verbatim>\<open>groupSVGElements\<close>. JavaScript objects live in explicit stores indexed by their
  identity; numbers are modelled as real numbers (exact arithmetic, no non-finite values).
\<close>

subsection \<open>Geometric primitives\<close>

text \<open>
  Modelled from the spec: the classes and utilities \<^verbatim>\<open>Point\<close>, \<^verbatim>\<open>iMatrix\<close> and
  \<^verbatim>\<open>invertTransform\<close> ("point/vector arithmetic, affine matrix operations") are imported
  by the layout manager but are not among the available sources. A matrix
  \<^verbatim>\<open>[a, b, c, d, e, f]\<close> maps \<open>(x, y)\<close> to \<open>(a x + c y + e, b x + d y + f)\<close>; the flag of
  \<open>transform\<close> drops the translation \<open>(e, f)\<close>, which is how a delta (a vector) is mapped.
\<close>

datatype point = Point (px: real) (py: real)

datatype tmat2d = TMat2D real real real real real real

definition zeroPoint :: point where
  "zeroPoint = Point 0 0"

fun add :: "point \<Rightarrow> point \<Rightarrow> point" where
  "add (Point x1 y1) (Point x2 y2) = Point (x1 + x2) (y1 + y2)"

fun subtract :: "point \<Rightarrow> point \<Rightarrow> point" where
  "subtract (Point x1 y1) (Point x2 y2) = Point (x1 - x2) (y1 - y2)"

fun multiply :: "point \<Rightarrow> point \<Rightarrow> point" where
  "multiply (Point x1 y1) (Point x2 y2) = Point (x1 * x2) (y1 * y2)"

fun eq_point :: "point \<Rightarrow> point \<Rightarrow> bool" where
  "eq_point (Point x1 y1) (Point x2 y2) \<longleftrightarrow> x1 = x2 \<and> y1 = y2"

fun transform :: "point \<Rightarrow> tmat2d \<Rightarrow> bool \<Rightarrow> point" where
  "transform (Point x y) (TMat2D a b c d e f) ignoreOffset =
     Point (a * x + c * y + (if ignoreOffset then 0 else e))
           (b * x + d * y + (if ignoreOffset then 0 else f))"

definition iMatrix :: tmat2d where
  "iMatrix = TMat2D 1 0 0 1 0 0"

fun determinant :: "tmat2d \<Rightarrow> real" where
  "determinant (TMat2D a b c d e f) = a * d - b * c"

text \<open>
  The inverse is only meaningful for a matrix whose determinant is not zero: JavaScript
  divides by zero into a non-finite number there, which the reals do not have.
\<close>

fun invertTransform :: "tmat2d \<Rightarrow> tmat2d" where
  "invertTransform (TMat2D a b c d e f) =
     (let k = 1 / (a * d - b * c);
          r0 = k * d; r1 = - k * b; r2 = - k * c; r3 = k * a;
          p = transform (Point e f) (TMat2D r0 r1 r2 r3 0 0) True
      in TMat2D r0 r1 r2 r3 (- px p) (- py p))"

subsection \<open>Data model\<close>

type_synonym obj_id = nat
type_synonym mgr_id = nat
type_synonym arr_id = nat

text \<open>A strategy instance: its class and its identity.\<close>

datatype strategy = FitContentLayout nat | CustomLayout nat

datatype layout_type = Initialization | Added | Removed | Object_modified | Object_modifying

datatype origin = OLeft | OCenter | ORight | OTop | OBottom | ONum real

text \<open>
  Modelled from the spec: the classes \<^verbatim>\<open>FabricObject\<close> and \<^verbatim>\<open>Group\<close> are not among the
  sources. The record holds the fields that the layout manager reads or writes. The
  mutation primitives of the container ("set width/height", "set absolute position",
  "set a child's relative position", "mark dirty") assign the fields \<open>width\<close>, \<open>height\<close>,
  \<open>left_coord\<close>, \<open>top_coord\<close> and \<open>dirty\<close>; the relative position of a child is its stored
  left and top; "invalidate cached coordinates" is counted in \<open>setCoordsCalls\<close>.
  \<open>angle\<close>, \<open>scaleX\<close>, \<open>scaleY\<close> stand for the rest of the object's own transform,
  \<open>own_objects\<close> is the list of children and \<open>group_ref\<close> the parent group.
\<close>

record fabric_object =
  left_coord :: real
  top_coord :: real
  width :: real
  height :: real
  originX :: origin
  originY :: origin
  angle :: real
  scaleX :: real
  scaleY :: real
  group_ref :: "obj_id option"
  layoutManager :: "mgr_id option"
  own_objects :: "obj_id list"
  clipPath :: "obj_id option"
  absolutePositioned :: bool
  dirty :: bool
  setCoordsCalls :: nat

text \<open>The result of a strategy; the four corrections are optional.\<close>

record layout_strategy_result =
  centerX :: real
  centerY :: real
  res_width :: real
  res_height :: real
  correctionX :: "real option"
  correctionY :: "real option"
  relativeCorrectionX :: "real option"
  relativeCorrectionY :: "real option"

record layout_result =
  result :: layout_strategy_result
  prevCenter :: point
  nextCenter :: point
  offset :: point

text \<open>
  A \<^verbatim>\<open>LayoutContext\<close> as \<^verbatim>\<open>performLayout\<close> receives it. \<open>path\<close> is a reference to an array
  in the store, since the array is shared with the caller and pushed to in place.
  A JavaScript object may already carry the three fields that \<^verbatim>\<open>performLayout\<close> attaches
  (a bubbled context does): \<open>given_strategy\<close>, \<open>given_prevStrategy\<close> and
  \<open>given_strategyChange\<close> are \<open>None\<close> when the property is absent; a present
  \<^verbatim>\<open>prevStrategy\<close> may hold \<^verbatim>\<open>undefined\<close>.
\<close>

record layout_context =
  trigger :: string
  ctx_type :: layout_type
  target :: obj_id
  targets :: "obj_id list"
  path :: "arr_id option"
  objectsRelativeToGroup :: bool
  e_target :: "obj_id option"
  given_strategy :: "strategy option"
  given_prevStrategy :: "strategy option option"
  given_strategyChange :: "bool option"

record strict_layout_context =
  sc_trigger :: string
  sc_type :: layout_type
  sc_target :: obj_id
  sc_targets :: "obj_id list"
  sc_path :: "arr_id option"
  sc_objectsRelativeToGroup :: bool
  sc_e_target :: "obj_id option"
  ctx_strategy :: strategy
  prevStrategy :: "strategy option"
  strategyChange :: bool

record layout_manager =
  firstLayoutDone :: bool
  prevLayoutStrategy :: "strategy option"
  strategy :: strategy
  subscriptions :: "obj_id \<rightharpoonup> nat list"

text \<open>
  A listener registered by \<^verbatim>\<open>object.on(key, handler)\<close>. The handler is a closure of
  \<^verbatim>\<open>subscribe\<close>: it calls \<^verbatim>\<open>performLayout\<close> of the manager \<open>l_owner\<close> with the recorded
  trigger, type and target. The disposer returned by \<^verbatim>\<open>on\<close> is identified with \<open>lid\<close>.
\<close>

record listener =
  lid :: nat
  l_object :: obj_id
  l_key :: string
  l_owner :: mgr_id
  l_trigger :: string
  l_type :: layout_type
  l_target :: obj_id

text \<open>
  What the container is notified of: its two hooks and its two events. Hooks and event
  handlers are observers in this model: they are recorded in \<open>trace\<close> and change nothing.
\<close>

datatype event =
    HookBeforeLayout obj_id strict_layout_context
  | FireLayoutBefore obj_id strict_layout_context
  | HookAfterLayout obj_id strict_layout_context "layout_result option"
  | FireLayout obj_id strict_layout_context "layout_result option"

record world =
  objs :: "obj_id \<Rightarrow> fabric_object"
  mgrs :: "mgr_id \<Rightarrow> layout_manager"
  arrays :: "arr_id \<Rightarrow> obj_id list"
  next_array :: arr_id
  listeners :: "listener list"
  next_listener :: nat
  next_manager :: mgr_id
  next_strategy :: nat
  trace :: "event list"

text \<open>
  The collaborators whose code is not among the sources are parameters: the two methods of
  a strategy that the manager calls, and the geometry methods of the container. A strategy
  reads the context, the objects and the path arrays, not the state of the managers.
  \<open>translateToOriginPoint\<close> gives the left/top that \<^verbatim>\<open>setPositionByOrigin\<close> writes for a
  centre.
\<close>

record env =
  calcLayoutResult ::
    "strategy \<Rightarrow> (obj_id \<Rightarrow> fabric_object) \<Rightarrow> (arr_id \<Rightarrow> obj_id list) \<Rightarrow>
     strict_layout_context \<Rightarrow> obj_id list \<Rightarrow> layout_strategy_result option"
  shouldLayoutClipPath ::
    "strategy \<Rightarrow> (obj_id \<Rightarrow> fabric_object) \<Rightarrow> strict_layout_context \<Rightarrow> bool"
  getRelativeCenterPoint :: "fabric_object \<Rightarrow> point"
  calcOwnMatrix :: "fabric_object \<Rightarrow> tmat2d"
  translateToOriginPoint :: "fabric_object \<Rightarrow> point \<Rightarrow> point"
  resolveOrigin :: "origin \<Rightarrow> real"

subsection \<open>Small state updates\<close>

definition upd_obj :: "obj_id \<Rightarrow> (fabric_object \<Rightarrow> fabric_object) \<Rightarrow> world \<Rightarrow> world" where
  "upd_obj i f w = w\<lparr>objs := (objs w)(i := f (objs w i))\<rparr>"

definition upd_mgr :: "mgr_id \<Rightarrow> (layout_manager \<Rightarrow> layout_manager) \<Rightarrow> world \<Rightarrow> world" where
  "upd_mgr m f w = w\<lparr>mgrs := (mgrs w)(m := f (mgrs w m))\<rparr>"

definition emit :: "event \<Rightarrow> world \<Rightarrow> world" where
  "emit ev w = w\<lparr>trace := trace w @ [ev]\<rparr>"

text \<open>
  Modelled from the spec: \<^verbatim>\<open>object.on(key, handler)\<close> ("register a listener per named
  trigger") registers the listener and returns its disposer.
\<close>

definition on :: "obj_id \<Rightarrow> string \<Rightarrow> mgr_id \<Rightarrow> string \<Rightarrow> layout_type \<Rightarrow> obj_id \<Rightarrow> world
    \<Rightarrow> nat \<times> world" where
  "on object key m trig ty tgt w =
     (next_listener w,
      w\<lparr>listeners := listeners w @
           [\<lparr>lid = next_listener w, l_object = object, l_key = key, l_owner = m,
             l_trigger = trig, l_type = ty, l_target = tgt\<rparr>],
        next_listener := Suc (next_listener w)\<rparr>)"

text \<open>
  Modelled from the spec: a disposer ("unregister a listener") removes its listener;
  calling it again does nothing.
\<close>

definition dispose :: "nat \<Rightarrow> world \<Rightarrow> world" where
  "dispose d w = w\<lparr>listeners := filter (\<lambda>l. lid l \<noteq> d) (listeners w)\<rparr>"

subsection \<open>The layout manager\<close>

text \<open>Lines 30 to 37: the spread of the incoming context comes last and wins.\<close>

definition strictContext :: "layout_manager \<Rightarrow> layout_context \<Rightarrow> strict_layout_context" where
  "strictContext this context =
     \<lparr>sc_trigger = trigger context, sc_type = ctx_type context, sc_target = target context,
      sc_targets = targets context, sc_path = path context,
      sc_objectsRelativeToGroup = objectsRelativeToGroup context,
      sc_e_target = e_target context,
      ctx_strategy = (case given_strategy context of Some s \<Rightarrow> s | None \<Rightarrow> strategy this),
      prevStrategy = (case given_prevStrategy context of Some p \<Rightarrow> p
                      | None \<Rightarrow> prevLayoutStrategy this),
      strategyChange = (case given_strategyChange context of Some c \<Rightarrow> c
                        | None \<Rightarrow> prevLayoutStrategy this \<noteq> None \<and>
                                 Some (strategy this) \<noteq> prevLayoutStrategy this)\<rparr>"

text \<open>The spread \<^verbatim>\<open>{ ...context, target: parent }\<close> of a strict context.\<close>

definition bubbledContext :: "strict_layout_context \<Rightarrow> obj_id \<Rightarrow> layout_context" where
  "bubbledContext context parent =
     \<lparr>trigger = sc_trigger context, ctx_type = sc_type context, target = parent,
      targets = sc_targets context, path = sc_path context,
      objectsRelativeToGroup = sc_objectsRelativeToGroup context,
      e_target = sc_e_target context,
      given_strategy = Some (ctx_strategy context),
      given_prevStrategy = Some (prevStrategy context),
      given_strategyChange = Some (strategyChange context)\<rparr>"

definition unsubscribe :: "mgr_id \<Rightarrow> obj_id \<Rightarrow> world \<Rightarrow> world" where
  "unsubscribe this object w =
     fold dispose (case subscriptions (mgrs w this) object of Some ds \<Rightarrow> ds | None \<Rightarrow> []) w"

definition modificationEvents :: "string list" where
  "modificationEvents = [''moving'', ''resizing'', ''rotating'', ''scaling'', ''skewing'', ''changed'']"

text \<open>Registers one listener per key of the list, in order, collecting the disposers.\<close>

fun on_keys :: "obj_id \<Rightarrow> mgr_id \<Rightarrow> obj_id \<Rightarrow> string list \<Rightarrow> world \<Rightarrow> nat list \<times> world" where
  "on_keys object m tgt [] w = ([], w)"
| "on_keys object m tgt (key # keys) w =
     (let (d, w1) = on object key m key Object_modifying tgt w;
          (ds, w2) = on_keys object m tgt keys w1
      in (d # ds, w2))"

definition subscribe :: "mgr_id \<Rightarrow> strict_layout_context \<Rightarrow> obj_id \<Rightarrow> world \<Rightarrow> world" where
  "subscribe this context object w =
     (let tgt = sc_target context;
          w0 = unsubscribe this object w;
          (d1, w1) = on object ''modified'' this ''modified'' Object_modified tgt w0;
          (ds, w2) = on_keys object this tgt modificationEvents w1;
          (d3, w3) = on object ''changed'' this ''text:changed'' Object_modifying tgt w2;
          disposers = d1 # ds @ [d3]
      in upd_mgr this (\<lambda>mg. mg\<lparr>subscriptions := (subscriptions mg)(object \<mapsto> disposers)\<rparr>) w3)"

definition onBeforeLayout :: "mgr_id \<Rightarrow> strict_layout_context \<Rightarrow> world \<Rightarrow> world" where
  "onBeforeLayout this context w =
     (let tgt = sc_target context;
          w1 = (if sc_type context = Initialization \<or> sc_type context = Added
                then fold (subscribe this context) (sc_targets context) w
                else if sc_type context = Removed
                then fold (unsubscribe this) (sc_targets context) w
                else w)
      in emit (FireLayoutBefore tgt context) (emit (HookBeforeLayout tgt context) w1))"

definition orZero :: "real option \<Rightarrow> real" where
  "orZero v = (case v of Some r \<Rightarrow> r | None \<Rightarrow> 0)"

definition getLayoutResult :: "env \<Rightarrow> strict_layout_context \<Rightarrow> world \<Rightarrow> layout_result option" where
  "getLayoutResult E context w =
     (let tgt = objs w (sc_target context);
          prevC = (if sc_type context = Initialization then zeroPoint
                   else getRelativeCenterPoint E tgt)
      in case calcLayoutResult E (ctx_strategy context) (objs w) (arrays w) context
                (own_objects tgt) of
           None \<Rightarrow> None
         | Some res \<Rightarrow>
             (let nextC = Point (centerX res) (centerY res);
                  correction = Point (orZero (correctionX res)) (orZero (correctionY res));
                  relativeCorrection =
                    Point (orZero (relativeCorrectionX res)) (orZero (relativeCorrectionY res));
                  off = (if sc_type context = Initialization \<and> sc_objectsRelativeToGroup context
                         then zeroPoint
                         else add (transform (add (subtract prevC nextC) correction)
                                     (if sc_type context = Initialization then iMatrix
                                      else invertTransform (calcOwnMatrix E tgt))
                                     True)
                                  relativeCorrection)
              in Some \<lparr>result = res, prevCenter = prevC, nextCenter = nextC, offset = off\<rparr>))"

text \<open>\<^verbatim>\<open>object.setRelativeXY(object.getRelativeXY().add(offset))\<close>\<close>

definition layoutObject :: "layout_result \<Rightarrow> obj_id \<Rightarrow> world \<Rightarrow> world" where
  "layoutObject layoutResult object w =
     (let xy = add (Point (left_coord (objs w object)) (top_coord (objs w object)))
                   (offset layoutResult)
      in upd_obj object (\<lambda>ob. ob\<lparr>left_coord := px xy, top_coord := py xy\<rparr>) w)"

definition layoutObjects :: "env \<Rightarrow> strict_layout_context \<Rightarrow> layout_result \<Rightarrow> world \<Rightarrow> world" where
  "layoutObjects E context layoutResult w =
     (let tgt = sc_target context;
          w1 = (if sc_type context \<noteq> Initialization \<or> \<not> sc_objectsRelativeToGroup context
                then fold (\<lambda>object v.
                             if group_ref (objs v object) = Some tgt
                             then layoutObject layoutResult object v else v)
                          (own_objects (objs w tgt)) w
                else w)
      in if shouldLayoutClipPath E (ctx_strategy context) (objs w1) context
         then (case clipPath (objs w1 tgt) of
                 None \<Rightarrow> w1
               | Some cp \<Rightarrow> if \<not> absolutePositioned (objs w1 cp)
                            then layoutObject layoutResult cp w1 else w1)
         else w1)"

definition commitLayout :: "env \<Rightarrow> strict_layout_context \<Rightarrow> layout_result \<Rightarrow> world \<Rightarrow> world" where
  "commitLayout E context layoutResult w =
     (let tgt = sc_target context;
          wd = res_width (result layoutResult);
          hg = res_height (result layoutResult);
          w1 = upd_obj tgt (\<lambda>ob. ob\<lparr>width := wd, height := hg\<rparr>) w;
          w2 = layoutObjects E context layoutResult w1;
          w3 = (if sc_type context = Initialization
                then (let org = add (nextCenter layoutResult)
                                  (multiply (Point wd hg)
                                     (Point (resolveOrigin E (originX (objs w2 tgt)))
                                            (resolveOrigin E (originY (objs w2 tgt)))))
                      in upd_obj tgt (\<lambda>ob. ob\<lparr>left_coord := px org, top_coord := py org\<rparr>) w2)
                else if \<not> eq_point (nextCenter layoutResult) (prevCenter layoutResult)
                then (let pos = translateToOriginPoint E (objs w2 tgt) (nextCenter layoutResult)
                      in upd_obj tgt (\<lambda>ob. ob\<lparr>left_coord := px pos, top_coord := py pos\<rparr>) w2)
                else w2);
          w4 = (if sc_type context \<noteq> Initialization
                then upd_obj tgt (\<lambda>ob. ob\<lparr>setCoordsCalls := Suc (setCoordsCalls ob)\<rparr>) w3
                else w3)
      in upd_obj tgt (\<lambda>ob. ob\<lparr>dirty := True\<rparr>) w4)"

text \<open>
  \<^verbatim>\<open>(context.path || (context.path = [])).push(target)\<close>: the array of the context is
  pushed to in place; a context without one gets a new array.
\<close>

definition pushPath :: "strict_layout_context \<Rightarrow> world \<Rightarrow> strict_layout_context \<times> world" where
  "pushPath context w =
     (case sc_path context of
        Some a \<Rightarrow> (context, w\<lparr>arrays := (arrays w)(a := arrays w a @ [sc_target context])\<rparr>)
      | None \<Rightarrow>
          (context\<lparr>sc_path := Some (next_array w)\<rparr>,
           w\<lparr>arrays := (arrays w)(next_array w := [sc_target context]),
             next_array := Suc (next_array w)\<rparr>))"

text \<open>The fallback of lines 47 to 59.\<close>

definition fallbackResult :: "env \<Rightarrow> strict_layout_context \<Rightarrow> world \<Rightarrow> layout_result" where
  "fallbackResult E context w =
     (let prevC = getRelativeCenterPoint E (objs w (sc_target context))
      in \<lparr>result = \<lparr>centerX = px prevC, centerY = py prevC,
                    res_width = width (objs w (sc_target context)),
                    res_height = height (objs w (sc_target context)),
                    correctionX = None, correctionY = None,
                    relativeCorrectionX = None, relativeCorrectionY = None\<rparr>,
          prevCenter = prevC, nextCenter = prevC, offset = zeroPoint\<rparr>)"

text \<open>
  \<^verbatim>\<open>performLayout\<close> and \<^verbatim>\<open>onAfterLayout\<close> call each other along the chain of parent
  groups, which the code does not bound: the first argument is fuel, and \<open>None\<close> means
  that the fuel ran out.
\<close>

fun performLayout :: "nat \<Rightarrow> env \<Rightarrow> mgr_id \<Rightarrow> layout_context \<Rightarrow> world \<Rightarrow> world option"
  and onAfterLayout :: "nat \<Rightarrow> env \<Rightarrow> strict_layout_context \<Rightarrow> layout_result option \<Rightarrow> world
    \<Rightarrow> world option" where
  "performLayout 0 E this context w = None"
| "performLayout (Suc n) E this context w =
     (if \<not> firstLayoutDone (mgrs w this) \<and> ctx_type context \<noteq> Initialization then Some w
      else
        (let sc = strictContext (mgrs w this) context;
             w1 = onBeforeLayout this sc w;
             layoutResult = getLayoutResult E sc w1;
             (w2, bubblingContext) =
               (case layoutResult of
                  Some r \<Rightarrow> (commitLayout E sc r w1, Some r)
                | None \<Rightarrow> if \<not> firstLayoutDone (mgrs w1 this)
                          then (w1, Some (fallbackResult E sc w1))
                          else (w1, None));
             w3 = upd_mgr this (\<lambda>mg. mg\<lparr>firstLayoutDone := True\<rparr>) w2
         in case onAfterLayout n E sc bubblingContext w3 of
              None \<Rightarrow> None
            | Some w4 \<Rightarrow>
                Some (upd_mgr this (\<lambda>mg. mg\<lparr>prevLayoutStrategy := Some (ctx_strategy sc)\<rparr>) w4)))"
| "onAfterLayout n E context layoutResult w =
     (let tgt = sc_target context;
          w1 = emit (FireLayout tgt context layoutResult)
                 (emit (HookAfterLayout tgt context layoutResult) w)
      in case group_ref (objs w1 tgt) of
           None \<Rightarrow> Some w1
         | Some parent \<Rightarrow>
             (case layoutManager (objs w1 parent) of
                None \<Rightarrow> Some w1
              | Some pm \<Rightarrow>
                  (let (context', w2) = pushPath context w1
                   in performLayout n E pm (bubbledContext context' parent) w2)))"

subsection \<open>The factory helper\<close>

datatype prop_value = ManagerRef mgr_id | NumberValue real | Undefined

text \<open>
  The \<^verbatim>\<open>Group\<close> constructor is not among the sources: the model returns its two arguments.
  An options object is a finite map from property names to values.
\<close>

datatype grouped = Element obj_id | NewGroup "obj_id list" "string \<rightharpoonup> prop_value"

text \<open>\<^verbatim>\<open>new LayoutManager()\<close> with its default argument \<^verbatim>\<open>new FitContentLayout()\<close>.\<close>

definition newLayoutManager :: "world \<Rightarrow> mgr_id \<times> world" where
  "newLayoutManager w =
     (next_manager w,
      w\<lparr>mgrs := (mgrs w)(next_manager w :=
            \<lparr>firstLayoutDone = False, prevLayoutStrategy = None,
             strategy = FitContentLayout (next_strategy w), subscriptions = Map.empty\<rparr>),
        next_manager := Suc (next_manager w),
        next_strategy := Suc (next_strategy w)\<rparr>)"

definition groupSVGElements ::
    "obj_id list \<Rightarrow> (string \<rightharpoonup> prop_value) option \<Rightarrow> world \<Rightarrow> grouped \<times> world" where
  "groupSVGElements elements options w =
     (if length elements = 1 then (Element (elements ! 0), w)
      else (let (m, w1) = newLayoutManager w
            in (NewGroup elements
                  ([''layoutManager'' \<mapsto> ManagerRef m] ++
                   (case options of Some opts \<Rightarrow> opts | None \<Rightarrow> Map.empty)),
                w1)))"

subsection \<open>Reading the state\<close>

text \<open>The disposers that the table of a manager holds for an object.\<close>

definition registered :: "world \<Rightarrow> mgr_id \<Rightarrow> obj_id \<Rightarrow> nat list" where
  "registered w m object =
     (case subscriptions (mgrs w m) object of Some ds \<Rightarrow> ds | None \<Rightarrow> [])"

text \<open>The listeners of a manager that are active on an object.\<close>

definition active_listeners :: "world \<Rightarrow> mgr_id \<Rightarrow> obj_id \<Rightarrow> nat list" where
  "active_listeners w m object =
     map lid (filter (\<lambda>l. l_owner l = m \<and> l_object l = object) (listeners w))"

text \<open>
  The state that \<^verbatim>\<open>on\<close> and \<^verbatim>\<open>subscribe\<close> maintain: listener identities are allocated in
  increasing order, and every active listener is held by the table of its manager under
  its object.
\<close>

definition subscriptions_ok :: "world \<Rightarrow> bool" where
  "subscriptions_ok w \<longleftrightarrow>
     (\<forall>l \<in> set (listeners w).
        lid l < next_listener w \<and> lid l \<in> set (registered w (l_owner l) (l_object l)))"

text \<open>The eight listeners that one call of \<^verbatim>\<open>subscribe\<close> registers, from identity \<open>k\<close> on.\<close>

definition fresh_listeners :: "mgr_id \<Rightarrow> obj_id \<Rightarrow> obj_id \<Rightarrow> nat \<Rightarrow> listener list" where
  "fresh_listeners m object tgt k =
     map (\<lambda>(i, key, trig, ty).
            \<lparr>lid = k + i, l_object = object, l_key = key, l_owner = m,
             l_trigger = trig, l_type = ty, l_target = tgt\<rparr>)
       [(0, ''modified'', ''modified'', Object_modified),
        (1, ''moving'', ''moving'', Object_modifying),
        (2, ''resizing'', ''resizing'', Object_modifying),
        (3, ''rotating'', ''rotating'', Object_modifying),
        (4, ''scaling'', ''scaling'', Object_modifying),
        (5, ''skewing'', ''skewing'', Object_modifying),
        (6, ''changed'', ''changed'', Object_modifying),
        (7, ''changed'', ''text:changed'', Object_modifying)]"

text \<open>
  The stages of a pass that is not dropped, named for the statements below: the result
  that reaches the after-hook, the state in which the after-hook runs, the two
  notifications after the layout, and the last assignment of \<^verbatim>\<open>performLayout\<close>.
\<close>

definition ownResult :: "env \<Rightarrow> mgr_id \<Rightarrow> strict_layout_context \<Rightarrow> world \<Rightarrow> layout_result option" where
  "ownResult E this sc w =
     (case getLayoutResult E sc w of
        Some r \<Rightarrow> Some r
      | None \<Rightarrow> if \<not> firstLayoutDone (mgrs w this) then Some (fallbackResult E sc w) else None)"

definition ownStages :: "env \<Rightarrow> mgr_id \<Rightarrow> strict_layout_context \<Rightarrow> world \<Rightarrow> world" where
  "ownStages E this sc w =
     upd_mgr this (\<lambda>mg. mg\<lparr>firstLayoutDone := True\<rparr>)
       (case getLayoutResult E sc w of
          Some r \<Rightarrow> commitLayout E sc r (onBeforeLayout this sc w)
        | None \<Rightarrow> onBeforeLayout this sc w)"

definition afterEvents :: "strict_layout_context \<Rightarrow> layout_result option \<Rightarrow> world \<Rightarrow> world" where
  "afterEvents sc r w =
     emit (FireLayout (sc_target sc) sc r) (emit (HookAfterLayout (sc_target sc) sc r) w)"

definition recordStrategy :: "mgr_id \<Rightarrow> strict_layout_context \<Rightarrow> world \<Rightarrow> world" where
  "recordStrategy this sc w =
     upd_mgr this (\<lambda>mg. mg\<lparr>prevLayoutStrategy := Some (ctx_strategy sc)\<rparr>) w"

text \<open>The assignment \<^verbatim>\<open>manager.strategy = s\<close> from outside.\<close>

definition setStrategy :: "mgr_id \<Rightarrow> strategy \<Rightarrow> world \<Rightarrow> world" where
  "setStrategy k s w = upd_mgr k (\<lambda>mg. mg\<lparr>strategy := s\<rparr>) w"

text \<open>
  The chain of parent groups with a layout manager, from an object upwards, ends within
  \<open>k\<close> steps.
\<close>

fun bubbles_within :: "nat \<Rightarrow> (obj_id \<Rightarrow> fabric_object) \<Rightarrow> obj_id \<Rightarrow> bool" where
  "bubbles_within 0 os t =
     (case group_ref (os t) of None \<Rightarrow> True | Some p \<Rightarrow> layoutManager (os p) = None)"
| "bubbles_within (Suc k) os t =
     (case group_ref (os t) of
        None \<Rightarrow> True
      | Some p \<Rightarrow>
          (case layoutManager (os p) of None \<Rightarrow> True | Some pm \<Rightarrow> bubbles_within k os p))"

text \<open>The stored relative position of one object, and one manager of the store.\<close>

definition position_of :: "obj_id \<Rightarrow> world \<Rightarrow> point" where
  "position_of i w = Point (left_coord (objs w i)) (top_coord (objs w i))"

definition manager_of :: "mgr_id \<Rightarrow> world \<Rightarrow> layout_manager" where
  "manager_of k w = mgrs w k"

text \<open>The content of one array of the store.\<close>

definition array_of :: "arr_id \<Rightarrow> world \<Rightarrow> obj_id list" where
  "array_of a w = arrays w a"

text \<open>The \<open>strategyChange\<close> flags that the before-hooks received, with their containers.\<close>

fun before_flags :: "event list \<Rightarrow> (obj_id \<times> bool) list" where
  "before_flags [] = []"
| "before_flags (HookBeforeLayout t sc # evs) = (t, strategyChange sc) # before_flags evs"
| "before_flags (ev # evs) = before_flags evs"

subsection \<open>A concrete scene\<close>

text \<open>
  Group 2 holds object 4 and lies in group 3; managers 2 and 3 belong to the two groups;
  array 5 is a path list that a caller owns. In the example environment an instance of
  \<open>FitContentLayout\<close> answers a fixed box and an instance of \<open>CustomLayout\<close> declines.
\<close>

definition demoObject :: fabric_object where
  "demoObject =
     \<lparr>left_coord = 0, top_coord = 0, width = 0, height = 0, originX = OCenter, originY = OCenter,
      angle = 0, scaleX = 1, scaleY = 1, group_ref = None, layoutManager = None,
      own_objects = [], clipPath = None, absolutePositioned = False, dirty = False,
      setCoordsCalls = 0\<rparr>"

definition demoManager :: "strategy \<Rightarrow> layout_manager" where
  "demoManager s =
     \<lparr>firstLayoutDone = False, prevLayoutStrategy = None, strategy = s,
      subscriptions = Map.empty\<rparr>"

definition demoBox :: layout_strategy_result where
  "demoBox =
     \<lparr>centerX = 10, centerY = 20, res_width = 200, res_height = 100,
      correctionX = None, correctionY = None,
      relativeCorrectionX = None, relativeCorrectionY = None\<rparr>"

definition demoEnv :: env where
  "demoEnv =
     \<lparr>calcLayoutResult = (\<lambda>s os as c children.
         case s of FitContentLayout k \<Rightarrow> Some demoBox | CustomLayout k \<Rightarrow> None),
      shouldLayoutClipPath = (\<lambda>s os c. True),
      getRelativeCenterPoint = (\<lambda>ob. Point (left_coord ob) (top_coord ob)),
      calcOwnMatrix =
        (\<lambda>ob. TMat2D (scaleX ob) 0 0 (scaleY ob) (left_coord ob) (top_coord ob)),
      translateToOriginPoint = (\<lambda>ob p. p),
      resolveOrigin =
        (\<lambda>orig. case orig of OLeft \<Rightarrow> - (1 / 2) | OCenter \<Rightarrow> 0 | ORight \<Rightarrow> 1 / 2
                 | OTop \<Rightarrow> - (1 / 2) | OBottom \<Rightarrow> 1 / 2 | ONum r \<Rightarrow> r - 1 / 2)\<rparr>"

definition demoWorld :: world where
  "demoWorld =
     \<lparr>objs = (\<lambda>i. demoObject)
        (2 := demoObject\<lparr>left_coord := 4, top_coord := 6, width := 50, height := 40,
                          scaleX := 2, scaleY := 4,
                          group_ref := Some 3, layoutManager := Some 2, own_objects := [4]\<rparr>,
         3 := demoObject\<lparr>layoutManager := Some 3, own_objects := [2]\<rparr>,
         4 := demoObject\<lparr>left_coord := 1, top_coord := 2, group_ref := Some 2\<rparr>),
      mgrs = (\<lambda>i. demoManager (FitContentLayout i)),
      arrays = (\<lambda>i. []),
      next_array = 6,
      listeners = [],
      next_listener = 0,
      next_manager = 8,
      next_strategy = 8,
      trace = []\<rparr>"

definition demoContext :: "layout_type \<Rightarrow> obj_id \<Rightarrow> layout_context" where
  "demoContext ty tgt =
     \<lparr>trigger = ''demo'', ctx_type = ty, target = tgt, targets = [], path = None,
      objectsRelativeToGroup = False, e_target = None,
      given_strategy = None, given_prevStrategy = None, given_strategyChange = None\<rparr>"

text \<open>The strict context that manager 2 builds from an example context.\<close>

definition demoStrict :: "layout_type \<Rightarrow> obj_id \<Rightarrow> strict_layout_context" where
  "demoStrict ty tgt = strictContext (demoManager (FitContentLayout 2)) (demoContext ty tgt)"

text \<open>
  The scene with group 2 at top level, and the state that the first layout of group 2
  leaves there: the stages of the pass, the two notifications, the recorded strategy.
\<close>

definition demoTop :: world where
  "demoTop = upd_obj 2 (\<lambda>ob. ob\<lparr>group_ref := None\<rparr>) demoWorld"

definition demoAfterInit :: world where
  "demoAfterInit =
     recordStrategy 2 (demoStrict Initialization 2)
       (afterEvents (demoStrict Initialization 2)
          (ownResult demoEnv 2 (demoStrict Initialization 2) demoTop)
          (ownStages demoEnv 2 (demoStrict Initialization 2) demoTop))"

text \<open>
  The geometry of a container without rotation whose origin need not be the centre: the
  centre lies half the scaled size, times the origin factor, away from left and top.
  The scene with group 2 at top level and its origin at the left and top.
\<close>

definition demoResolveOrigin :: "origin \<Rightarrow> real" where
  "demoResolveOrigin orig =
     (case orig of OLeft \<Rightarrow> - (1 / 2) | OCenter \<Rightarrow> 0 | ORight \<Rightarrow> 1 / 2
      | OTop \<Rightarrow> - (1 / 2) | OBottom \<Rightarrow> 1 / 2 | ONum r \<Rightarrow> r - 1 / 2)"

definition originEnv :: env where
  "originEnv =
     demoEnv\<lparr>getRelativeCenterPoint :=
               (\<lambda>ob. Point (left_coord ob - demoResolveOrigin (originX ob) * width ob * scaleX ob)
                          (top_coord ob - demoResolveOrigin (originY ob) * height ob * scaleY ob)),
             translateToOriginPoint :=
               (\<lambda>ob p. Point (px p + demoResolveOrigin (originX ob) * width ob * scaleX ob)
                            (py p + demoResolveOrigin (originY ob) * height ob * scaleY ob))\<rparr>"

definition demoLeftTop :: world where
  "demoLeftTop =
     upd_obj 2 (\<lambda>ob. ob\<lparr>group_ref := None, originX := OLeft, originY := OTop\<rparr>) demoWorld"

text \<open>
  The scene after manager 2 alone has done its first layout, and the scene with group 3
  lying in a further group 6 with manager 6.
\<close>

definition demoChildDone :: world where
  "demoChildDone = upd_mgr 2 (\<lambda>mg. mg\<lparr>firstLayoutDone := True\<rparr>) demoWorld"

definition demoChain :: world where
  "demoChain =
     upd_obj 6 (\<lambda>ob. ob\<lparr>layoutManager := Some 6, own_objects := [3]\<rparr>)
       (upd_obj 3 (\<lambda>ob. ob\<lparr>group_ref := Some 6\<rparr>) demoWorld)"

text \<open>The scene with a strategy on manager 2 that declines.\<close>

definition demoDeclining :: world where
  "demoDeclining = demoWorld\<lparr>mgrs := (mgrs demoWorld)(2 := demoManager (CustomLayout 5))\<rparr>"

text \<open>The scene after manager 3 has laid out with another strategy before.\<close>

definition demoLaidOut :: world where
  "demoLaidOut =
     demoWorld\<lparr>mgrs := (mgrs demoWorld)
       (3 := \<lparr>firstLayoutDone = True, prevLayoutStrategy = Some (FitContentLayout 7),
              strategy = FitContentLayout 3, subscriptions = Map.empty\<rparr>)\<rparr>"

text \<open>
  The scene after manager 2 has subscribed to object 4 and marked its first layout done,
  and the removal of object 4: the request and the strict context of manager 2 for it.
\<close>

definition demoSubscribed :: world where
  "demoSubscribed =
     upd_mgr 2 (\<lambda>mg. mg\<lparr>firstLayoutDone := True\<rparr>)
       (subscribe 2 (demoStrict Initialization 2) 4 demoWorld)"

definition demoRemovalRequest :: layout_context where
  "demoRemovalRequest = (demoContext Removed 2)\<lparr>targets := [4]\<rparr>"

definition demoRemoval :: strict_layout_context where
  "demoRemoval = (demoStrict Removed 2)\<lparr>sc_targets := [4]\<rparr>"

lemmas demo_defs = demoStrict_def strictContext_def demoContext_def demoManager_def
  demoWorld_def demoEnv_def demoBox_def demoObject_def

lemmas eval_defs = demo_defs demoLaidOut_def demoDeclining_def onBeforeLayout_def
  getLayoutResult_def commitLayout_def layoutObjects_def layoutObject_def upd_obj_def
  upd_mgr_def emit_def pushPath_def bubbledContext_def fallbackResult_def Let_def
  zeroPoint_def iMatrix_def orZero_def

section \<open>Properties\<close>

subsection \<open>Auxiliary facts\<close>

lemma transform_zero: "transform zeroPoint M True = zeroPoint"
  by (cases M) (simp add: zeroPoint_def)

lemma layoutObject_zero: "offset lr = zeroPoint \<Longrightarrow> layoutObject lr object w = w"
  by (simp add: layoutObject_def upd_obj_def zeroPoint_def)

lemma fold_layoutObject_zero:
  "offset lr = zeroPoint \<Longrightarrow>
   fold (\<lambda>object v. if group_ref (objs v object) = Some tgt
                      then layoutObject lr object v else v) xs w = w"
  by (induction xs arbitrary: w) (simp_all add: layoutObject_zero)

lemma layoutObjects_zero: "offset lr = zeroPoint \<Longrightarrow> layoutObjects E context lr w = w"
  by (simp add: layoutObjects_def Let_def fold_layoutObject_zero layoutObject_zero
      split: option.splits)

lemma fold_dispose:
  "fold dispose ds w = w\<lparr>listeners := filter (\<lambda>l. lid l \<notin> set ds) (listeners w)\<rparr>"
proof (induction ds arbitrary: w)
  case Nil
  then show ?case by simp
next
  case (Cons d ds)
  have "filter (\<lambda>l. lid l \<notin> set ds) (filter (\<lambda>l. lid l \<noteq> d) xs) =
        filter (\<lambda>l. lid l \<notin> set (d # ds)) xs" for xs :: "listener list"
    by (induction xs) auto
  then have "fold dispose ds (dispose d w) =
      w\<lparr>listeners := filter (\<lambda>l. lid l \<notin> set (d # ds)) (listeners w)\<rparr>"
    unfolding Cons.IH by (simp add: dispose_def)
  then show ?case by simp
qed

lemma unsubscribe_eq:
  "unsubscribe m object w =
     w\<lparr>listeners := filter (\<lambda>l. lid l \<notin> set (registered w m object)) (listeners w)\<rparr>"
  by (simp add: unsubscribe_def registered_def fold_dispose)

lemma registered_unsubscribe [simp]:
  "registered (unsubscribe m object w) m' object' = registered w m' object'"
  by (simp add: unsubscribe_eq registered_def)

lemma fold_unsubscribe:
  "fold (unsubscribe m) os w =
     w\<lparr>listeners :=
         filter (\<lambda>l. \<forall>object \<in> set os. lid l \<notin> set (registered w m object)) (listeners w)\<rparr>"
proof (induction os arbitrary: w)
  case Nil
  then show ?case by simp
next
  case (Cons a os)
  have reg: "registered (w\<lparr>listeners := ls\<rparr>) m object = registered w m object" for ls object
    by (simp add: registered_def)
  have "filter (\<lambda>l. \<forall>object \<in> set os. lid l \<notin> set (registered w m object))
          (filter (\<lambda>l. lid l \<notin> set (registered w m a)) xs) =
        filter (\<lambda>l. \<forall>object \<in> set (a # os). lid l \<notin> set (registered w m object)) xs"
    for xs :: "listener list"
    by (induction xs) auto
  then have "fold (unsubscribe m) os (unsubscribe m a w) =
      w\<lparr>listeners :=
         filter (\<lambda>l. \<forall>object \<in> set (a # os). lid l \<notin> set (registered w m object))
           (listeners w)\<rparr>"
    unfolding Cons.IH by (simp add: unsubscribe_eq reg)
  then show ?case by simp
qed

lemma subscribe_eq:
  "subscribe m c object w =
     w\<lparr>listeners := filter (\<lambda>l. lid l \<notin> set (registered w m object)) (listeners w) @
                     fresh_listeners m object (sc_target c) (next_listener w),
       next_listener := next_listener w + 8,
       mgrs := (mgrs w)(m := (mgrs w m)\<lparr>subscriptions := (subscriptions (mgrs w m))
                 (object \<mapsto> map (\<lambda>i. next_listener w + i) [0, 1, 2, 3, 4, 5, 6, 7])\<rparr>)\<rparr>"
  by (simp add: subscribe_def unsubscribe_eq on_def modificationEvents_def Let_def upd_mgr_def
      fresh_listeners_def eval_nat_numeral)

lemma fresh_listeners_props:
  "map lid (fresh_listeners m object tgt k) = map (\<lambda>i. k + i) [0, 1, 2, 3, 4, 5, 6, 7]"
  "\<forall>l \<in> set (fresh_listeners m object tgt k). l_owner l = m \<and> l_object l = object"
  by (simp_all add: fresh_listeners_def)

lemma subscribe_active:
  assumes "subscriptions_ok w"
  shows "subscriptions_ok (subscribe m c object w) \<and>
         active_listeners (subscribe m c object w) m object =
           map (\<lambda>i. next_listener w + i) [0, 1, 2, 3, 4, 5, 6, 7] \<and>
         registered (subscribe m c object w) m object =
           map (\<lambda>i. next_listener w + i) [0, 1, 2, 3, 4, 5, 6, 7] \<and>
         next_listener (subscribe m c object w) = next_listener w + 8"
proof -
  let ?w' = "subscribe m c object w"
  let ?old = "filter (\<lambda>l. lid l \<notin> set (registered w m object)) (listeners w)"
  let ?new = "fresh_listeners m object (sc_target c) (next_listener w)"
  let ?ids = "map (\<lambda>i. next_listener w + i) [0, 1, 2, 3, 4, 5, 6, 7]"
  have ls: "listeners ?w' = ?old @ ?new" by (simp add: subscribe_eq)
  have nl: "next_listener ?w' = next_listener w + 8" by (simp add: subscribe_eq)
  have reg: "registered ?w' m' object' =
      (if m' = m \<and> object' = object then ?ids else registered w m' object')" for m' object'
    by (simp add: subscribe_eq registered_def)
  have old: "lid l < next_listener w \<and> (l_owner l, l_object l) \<noteq> (m, object) \<and>
             lid l \<in> set (registered w (l_owner l) (l_object l))" if "l \<in> set ?old" for l
    using that assms by (auto simp: subscriptions_ok_def)
  have new_own: "\<forall>l \<in> set ?new. l_owner l = m \<and> l_object l = object"
    by (rule fresh_listeners_props)
  have new_ids: "map lid ?new = ?ids" by (rule fresh_listeners_props)
  have ok: "subscriptions_ok ?w'"
    unfolding subscriptions_ok_def
  proof
    fix l assume "l \<in> set (listeners ?w')"
    then consider "l \<in> set ?old" | "l \<in> set ?new" by (auto simp: ls)
    then show "lid l < next_listener ?w' \<and>
               lid l \<in> set (registered ?w' (l_owner l) (l_object l))"
    proof cases
      case 1
      from old [OF 1] show ?thesis by (auto simp: nl reg)
    next
      case 2
      then have "lid l \<in> set (map lid ?new)" by simp
      then have "lid l \<in> set ?ids" by (simp only: new_ids)
      moreover have "l_owner l = m \<and> l_object l = object" using 2 new_own by blast
      ultimately show ?thesis by (auto simp: nl reg)
    qed
  qed
  have "filter (\<lambda>l. l_owner l = m \<and> l_object l = object) ?old = []"
    using old by (auto simp: filter_empty_conv)
  moreover have "filter (\<lambda>l. l_owner l = m \<and> l_object l = object) ?new = ?new"
    using new_own by (simp add: filter_id_conv)
  ultimately have act: "active_listeners ?w' m object = ?ids"
    by (simp only: active_listeners_def ls filter_append new_ids append_Nil)
  show ?thesis using ok act reg nl by simp
qed

lemma fold_subscribe_frame:
  "objs (fold (subscribe m c) os w) = objs w \<and>
   arrays (fold (subscribe m c) os w) = arrays w \<and>
   next_array (fold (subscribe m c) os w) = next_array w \<and>
   trace (fold (subscribe m c) os w) = trace w \<and>
   (\<forall>k. firstLayoutDone (mgrs (fold (subscribe m c) os w) k) = firstLayoutDone (mgrs w k) \<and>
        prevLayoutStrategy (mgrs (fold (subscribe m c) os w) k) = prevLayoutStrategy (mgrs w k) \<and>
        strategy (mgrs (fold (subscribe m c) os w) k) = strategy (mgrs w k))"
proof (induction os arbitrary: w)
  case Nil
  then show ?case by simp
next
  case (Cons a os)
  have step: "objs (subscribe m c a w) = objs w \<and> arrays (subscribe m c a w) = arrays w \<and>
      next_array (subscribe m c a w) = next_array w \<and> trace (subscribe m c a w) = trace w \<and>
      (\<forall>k. firstLayoutDone (mgrs (subscribe m c a w) k) = firstLayoutDone (mgrs w k) \<and>
           prevLayoutStrategy (mgrs (subscribe m c a w) k) = prevLayoutStrategy (mgrs w k) \<and>
           strategy (mgrs (subscribe m c a w) k) = strategy (mgrs w k))"
    by (simp add: subscribe_eq)
  show ?case using Cons.IH [of "subscribe m c a w"] step by simp
qed

lemma onBeforeLayout_frame:
  "objs (onBeforeLayout m c w) = objs w"
  "arrays (onBeforeLayout m c w) = arrays w"
  "next_array (onBeforeLayout m c w) = next_array w"
  "trace (onBeforeLayout m c w) =
     trace w @ [HookBeforeLayout (sc_target c) c, FireLayoutBefore (sc_target c) c]"
  "firstLayoutDone (mgrs (onBeforeLayout m c w) k) = firstLayoutDone (mgrs w k)"
  "prevLayoutStrategy (mgrs (onBeforeLayout m c w) k) = prevLayoutStrategy (mgrs w k)"
  "strategy (mgrs (onBeforeLayout m c w) k) = strategy (mgrs w k)"
  using fold_subscribe_frame [of m c "sc_targets c" w]
  by (simp_all add: onBeforeLayout_def Let_def emit_def fold_unsubscribe)

lemma layoutObject_frame:
  "mgrs (layoutObject lr i w) = mgrs w" "arrays (layoutObject lr i w) = arrays w"
  "next_array (layoutObject lr i w) = next_array w" "trace (layoutObject lr i w) = trace w"
  "listeners (layoutObject lr i w) = listeners w"
  "group_ref (objs (layoutObject lr i w) j) = group_ref (objs w j)"
  "layoutManager (objs (layoutObject lr i w) j) = layoutManager (objs w j)"
  by (simp_all add: layoutObject_def upd_obj_def Let_def)

lemma fold_layoutObject_frame:
  "mgrs (fold (\<lambda>object v. if group_ref (objs v object) = Some tgt
                             then layoutObject lr object v else v) xs w) = mgrs w \<and>
   arrays (fold (\<lambda>object v. if group_ref (objs v object) = Some tgt
                             then layoutObject lr object v else v) xs w) = arrays w \<and>
   next_array (fold (\<lambda>object v. if group_ref (objs v object) = Some tgt
                             then layoutObject lr object v else v) xs w) = next_array w \<and>
   trace (fold (\<lambda>object v. if group_ref (objs v object) = Some tgt
                             then layoutObject lr object v else v) xs w) = trace w \<and>
   listeners (fold (\<lambda>object v. if group_ref (objs v object) = Some tgt
                             then layoutObject lr object v else v) xs w) = listeners w \<and>
   (\<forall>j. group_ref (objs (fold (\<lambda>object v. if group_ref (objs v object) = Some tgt
                             then layoutObject lr object v else v) xs w) j) = group_ref (objs w j) \<and>
        layoutManager (objs (fold (\<lambda>object v. if group_ref (objs v object) = Some tgt
                             then layoutObject lr object v else v) xs w) j) =
          layoutManager (objs w j))"
  by (induction xs arbitrary: w) (simp_all add: layoutObject_frame)

lemma layoutObjects_frame:
  "mgrs (layoutObjects E c lr w) = mgrs w" "arrays (layoutObjects E c lr w) = arrays w"
  "next_array (layoutObjects E c lr w) = next_array w" "trace (layoutObjects E c lr w) = trace w"
  "listeners (layoutObjects E c lr w) = listeners w"
  "group_ref (objs (layoutObjects E c lr w) j) = group_ref (objs w j)"
  "layoutManager (objs (layoutObjects E c lr w) j) = layoutManager (objs w j)"
  using fold_layoutObject_frame [of "sc_target c" lr "own_objects (objs w (sc_target c))" w]
  by (simp_all add: layoutObjects_def Let_def layoutObject_frame split: option.splits)

lemma commitLayout_frame:
  "mgrs (commitLayout E c lr w) = mgrs w" "arrays (commitLayout E c lr w) = arrays w"
  "next_array (commitLayout E c lr w) = next_array w" "trace (commitLayout E c lr w) = trace w"
  "listeners (commitLayout E c lr w) = listeners w"
  "group_ref (objs (commitLayout E c lr w) j) = group_ref (objs w j)"
  "layoutManager (objs (commitLayout E c lr w) j) = layoutManager (objs w j)"
  by (simp_all add: commitLayout_def Let_def upd_obj_def layoutObjects_frame)

lemma getLayoutResult_cong:
  "objs w' = objs w \<Longrightarrow> arrays w' = arrays w \<Longrightarrow>
   getLayoutResult E c w' = getLayoutResult E c w"
  by (simp add: getLayoutResult_def)

lemma fallbackResult_cong:
  "objs w' = objs w \<Longrightarrow> fallbackResult E c w' = fallbackResult E c w"
  by (simp add: fallbackResult_def)

lemma performLayout_pass:
  assumes "firstLayoutDone (mgrs w this) \<or> ctx_type context = Initialization"
  shows "performLayout (Suc n) E this context w =
     map_option (recordStrategy this (strictContext (mgrs w this) context))
       (onAfterLayout n E (strictContext (mgrs w this) context)
          (ownResult E this (strictContext (mgrs w this) context) w)
          (ownStages E this (strictContext (mgrs w this) context) w))"
proof -
  let ?sc = "strictContext (mgrs w this) context"
  have g: "getLayoutResult E ?sc (onBeforeLayout this ?sc w) = getLayoutResult E ?sc w"
    by (rule getLayoutResult_cong) (simp_all add: onBeforeLayout_frame)
  have f: "fallbackResult E ?sc (onBeforeLayout this ?sc w) = fallbackResult E ?sc w"
    by (rule fallbackResult_cong) (simp add: onBeforeLayout_frame)
  show ?thesis
    using assms
    by (auto simp add: Let_def g f onBeforeLayout_frame ownResult_def ownStages_def
        recordStrategy_def map_option_case split: option.splits simp del: onAfterLayout.simps)
qed

lemma afterEvents_frame:
  "objs (afterEvents sc r w) = objs w" "mgrs (afterEvents sc r w) = mgrs w"
  "arrays (afterEvents sc r w) = arrays w" "next_array (afterEvents sc r w) = next_array w"
  "listeners (afterEvents sc r w) = listeners w"
  "trace (afterEvents sc r w) =
     trace w @ [HookAfterLayout (sc_target sc) sc r, FireLayout (sc_target sc) sc r]"
  by (simp_all add: afterEvents_def emit_def)

lemma ownStages_frame:
  "arrays (ownStages E m sc w) = arrays w"
  "next_array (ownStages E m sc w) = next_array w"
  "trace (ownStages E m sc w) =
     trace w @ [HookBeforeLayout (sc_target sc) sc, FireLayoutBefore (sc_target sc) sc]"
  "group_ref (objs (ownStages E m sc w) j) = group_ref (objs w j)"
  "layoutManager (objs (ownStages E m sc w) j) = layoutManager (objs w j)"
  "firstLayoutDone (mgrs (ownStages E m sc w) k) = (k = m \<or> firstLayoutDone (mgrs w k))"
  "prevLayoutStrategy (mgrs (ownStages E m sc w) k) = prevLayoutStrategy (mgrs w k)"
  "strategy (mgrs (ownStages E m sc w) k) = strategy (mgrs w k)"
  by (simp_all add: ownStages_def upd_mgr_def commitLayout_frame onBeforeLayout_frame
      split: option.splits)

lemma ownStages_objs:
  "objs (ownStages E m sc w) =
     (case getLayoutResult E sc w of
        Some r \<Rightarrow> objs (commitLayout E sc r (onBeforeLayout m sc w))
      | None \<Rightarrow> objs w)"
  by (simp add: ownStages_def upd_mgr_def onBeforeLayout_frame split: option.splits)

lemma recordStrategy_frame:
  "objs (recordStrategy m sc w) = objs w" "arrays (recordStrategy m sc w) = arrays w"
  "next_array (recordStrategy m sc w) = next_array w" "trace (recordStrategy m sc w) = trace w"
  "listeners (recordStrategy m sc w) = listeners w"
  "firstLayoutDone (mgrs (recordStrategy m sc w) k) = firstLayoutDone (mgrs w k)"
  "strategy (mgrs (recordStrategy m sc w) k) = strategy (mgrs w k)"
  "prevLayoutStrategy (mgrs (recordStrategy m sc w) k) =
     (if k = m then Some (ctx_strategy sc) else prevLayoutStrategy (mgrs w k))"
  by (simp_all add: recordStrategy_def upd_mgr_def)

lemma pushPath_frame:
  "objs (snd (pushPath sc w)) = objs w" "mgrs (snd (pushPath sc w)) = mgrs w"
  "trace (snd (pushPath sc w)) = trace w" "listeners (snd (pushPath sc w)) = listeners w"
  by (simp_all add: pushPath_def split: option.splits)

lemma onAfterLayout_top:
  assumes "group_ref (objs w (sc_target sc)) = None \<or>
           (\<exists>p. group_ref (objs w (sc_target sc)) = Some p \<and> layoutManager (objs w p) = None)"
  shows "onAfterLayout n E sc r w = Some (afterEvents sc r w)"
  using assms by (auto simp add: Let_def afterEvents_def emit_def)

lemma onAfterLayout_bubble:
  assumes "group_ref (objs w (sc_target sc)) = Some p" and "layoutManager (objs w p) = Some pm"
  shows "onAfterLayout n E sc r w =
     performLayout n E pm (bubbledContext (fst (pushPath sc (afterEvents sc r w))) p)
       (snd (pushPath sc (afterEvents sc r w)))"
  using assms by (simp add: Let_def afterEvents_def emit_def split_beta)

lemma sc_target_strictContext [simp]: "sc_target (strictContext mg c) = target c"
  by (simp add: strictContext_def)

lemma performLayout_cases:
  assumes "performLayout (Suc n) E m c w = Some w'"
  obtains
    (dropped) "\<not> firstLayoutDone (mgrs w m)" "ctx_type c \<noteq> Initialization" "w' = w"
  | (top) "firstLayoutDone (mgrs w m) \<or> ctx_type c = Initialization"
      "group_ref (objs w (target c)) = None \<or>
       (\<exists>p. group_ref (objs w (target c)) = Some p \<and> layoutManager (objs w p) = None)"
      "w' = recordStrategy m (strictContext (mgrs w m) c)
              (afterEvents (strictContext (mgrs w m) c)
                 (ownResult E m (strictContext (mgrs w m) c) w)
                 (ownStages E m (strictContext (mgrs w m) c) w))"
  | (bubble) p pm w4 where "firstLayoutDone (mgrs w m) \<or> ctx_type c = Initialization"
      "group_ref (objs w (target c)) = Some p" "layoutManager (objs w p) = Some pm"
      "performLayout n E pm
         (bubbledContext
            (fst (pushPath (strictContext (mgrs w m) c)
                    (afterEvents (strictContext (mgrs w m) c)
                       (ownResult E m (strictContext (mgrs w m) c) w)
                       (ownStages E m (strictContext (mgrs w m) c) w)))) p)
         (snd (pushPath (strictContext (mgrs w m) c)
                 (afterEvents (strictContext (mgrs w m) c)
                    (ownResult E m (strictContext (mgrs w m) c) w)
                    (ownStages E m (strictContext (mgrs w m) c) w)))) = Some w4"
      "w' = recordStrategy m (strictContext (mgrs w m) c) w4"
proof (cases "firstLayoutDone (mgrs w m) \<or> ctx_type c = Initialization")
  case False
  then have "w' = w" using assms by simp
  with False show ?thesis using dropped by blast
next
  case True
  let ?sc = "strictContext (mgrs w m) c"
  let ?w3 = "ownStages E m ?sc w"
  let ?r = "ownResult E m ?sc w"
  from performLayout_pass [OF True, of n E] assms
  obtain w4 where after: "onAfterLayout n E ?sc ?r ?w3 = Some w4"
    and w': "w' = recordStrategy m ?sc w4"
    by (auto simp del: onAfterLayout.simps)
  show ?thesis
  proof (cases "group_ref (objs w (target c))")
    case None
    then have cond: "group_ref (objs ?w3 (sc_target ?sc)) = None \<or>
        (\<exists>p. group_ref (objs ?w3 (sc_target ?sc)) = Some p \<and> layoutManager (objs ?w3 p) = None)"
      by (simp add: ownStages_frame)
    from onAfterLayout_top [OF cond, of n E ?r] after have "w4 = afterEvents ?sc ?r ?w3"
      by simp
    with None True w' show ?thesis using top by blast
  next
    case (Some p)
    show ?thesis
    proof (cases "layoutManager (objs w p)")
      case None
      with Some have cond: "group_ref (objs ?w3 (sc_target ?sc)) = None \<or>
          (\<exists>p. group_ref (objs ?w3 (sc_target ?sc)) = Some p \<and>
               layoutManager (objs ?w3 p) = None)"
        by (simp add: ownStages_frame)
      from onAfterLayout_top [OF cond, of n E ?r] after have "w4 = afterEvents ?sc ?r ?w3"
        by simp
      with None Some True w' show ?thesis using top by blast
    next
      case pm: (Some pm)
      have g: "group_ref (objs ?w3 (sc_target ?sc)) = Some p"
        and l: "layoutManager (objs ?w3 p) = Some pm"
        using Some pm by (simp_all add: ownStages_frame)
      from onAfterLayout_bubble [OF g l, of n E ?r] after
      show ?thesis using bubble [OF True Some pm _ w'] by simp
    qed
  qed
qed

lemma pushPath_arrays:
  "next_array w \<le> next_array (snd (pushPath sc w))"
  "\<exists>a. sc_path (fst (pushPath sc w)) = Some a \<and>
       a = (case sc_path sc of Some a0 \<Rightarrow> a0 | None \<Rightarrow> next_array w) \<and>
       arrays (snd (pushPath sc w)) =
         (arrays w)(a := (case sc_path sc of Some a0 \<Rightarrow> arrays w a0 | None \<Rightarrow> []) @
                          [sc_target sc])"
  by (simp_all add: pushPath_def split: option.splits)


lemma path_bubbledContext [simp]: "path (bubbledContext sc p) = sc_path sc"
  by (simp add: bubbledContext_def)

lemma sc_path_strictContext [simp]: "sc_path (strictContext mg c) = path c"
  by (simp add: strictContext_def)

lemma performLayout_trace:
  assumes "performLayout n E m c w = Some w'"
  shows "prefix (trace w) (trace w')"
  using assms
proof (induction n arbitrary: m c w w')
  case 0
  then show ?case by simp
next
  case (Suc n)
  from Suc.prems show ?case
  proof (cases rule: performLayout_cases)
    case dropped
    then show ?thesis by simp
  next
    case top
    then show ?thesis
      by (simp add: recordStrategy_frame afterEvents_frame ownStages_frame)
  next
    case (bubble p pm w4)
    from Suc.IH [OF bubble(4)] bubble(5) show ?thesis
      by (auto simp add: recordStrategy_frame pushPath_frame afterEvents_frame ownStages_frame
          prefix_def)
  qed
qed

lemma performLayout_arrays:
  assumes "performLayout n E m c w = Some w'"
  shows "next_array w \<le> next_array w' \<and>
         (\<forall>a. a < next_array w \<and> path c \<noteq> Some a \<longrightarrow> arrays w' a = arrays w a) \<and>
         (\<forall>a. path c = Some a \<longrightarrow> prefix (arrays w a) (arrays w' a))"
  using assms
proof (induction n arbitrary: m c w w')
  case 0
  then show ?case by simp
next
  case (Suc n)
  from Suc.prems show ?case
  proof (cases rule: performLayout_cases)
    case dropped
    then show ?thesis by simp
  next
    case top
    then show ?thesis
      by (simp add: recordStrategy_frame afterEvents_frame ownStages_frame)
  next
    case (bubble p pm w4)
    let ?sc = "strictContext (mgrs w m) c"
    let ?w3 = "afterEvents ?sc (ownResult E m ?sc w) (ownStages E m ?sc w)"
    let ?c' = "bubbledContext (fst (pushPath ?sc ?w3)) p"
    let ?w2 = "snd (pushPath ?sc ?w3)"
    have w3: "arrays ?w3 = arrays w" "next_array ?w3 = next_array w"
      by (simp_all add: afterEvents_frame ownStages_frame)
    from pushPath_arrays(2) [of ?sc ?w3] obtain a where
      a: "path ?c' = Some a" "a = (case path c of Some a0 \<Rightarrow> a0 | None \<Rightarrow> next_array w)"
      and arr: "arrays ?w2 = (arrays w)(a := (case path c of Some a0 \<Rightarrow> arrays w a0
                                              | None \<Rightarrow> []) @ [target c])"
      by (cases "path c") (auto simp: w3)
    have nxt: "next_array w \<le> next_array ?w2"
      using pushPath_arrays(1) [of ?w3 ?sc] by (simp add: w3)
    note ih = Suc.IH [OF bubble(4)]
    have fin: "arrays w' = arrays w4" "next_array w' = next_array w4"
      using bubble(5) by (simp_all add: recordStrategy_frame)
    have 1: "next_array w \<le> next_array w'" using ih nxt fin by simp
    have 2: "arrays w' b = arrays w b" if "b < next_array w" "path c \<noteq> Some b" for b
    proof -
      have "b \<noteq> a" using that a(2) by (auto split: option.splits)
      moreover have "b < next_array ?w2" using that(1) nxt by simp
      ultimately have "arrays w4 b = arrays ?w2 b" using ih a(1) by simp
      with \<open>b \<noteq> a\<close> show ?thesis by (simp add: fin arr)
    qed
    have 3: "prefix (arrays w b) (arrays w' b)" if "path c = Some b" for b
    proof -
      have "a = b" using that a(2) by simp
      then have "prefix (arrays ?w2 b) (arrays w4 b)" using ih a(1) by simp
      moreover have "prefix (arrays w b) (arrays ?w2 b)"
        using that \<open>a = b\<close> by (simp add: arr)
      ultimately show ?thesis using fin by (auto intro: prefix_order.trans)
    qed
    show ?thesis using 1 2 3 by blast
  qed
qed

lemma performLayout_firstLayoutDone:
  assumes "performLayout n E m c w = Some w'" and "firstLayoutDone (mgrs w k)"
  shows "firstLayoutDone (mgrs w' k)"
  using assms
proof (induction n arbitrary: m c w w')
  case 0
  then show ?case by simp
next
  case (Suc n)
  from Suc.prems(1) show ?case
  proof (cases rule: performLayout_cases)
    case dropped
    then show ?thesis using Suc.prems(2) by simp
  next
    case top
    then show ?thesis using Suc.prems(2)
      by (simp add: recordStrategy_frame afterEvents_frame ownStages_frame)
  next
    case (bubble p pm w4)
    have "firstLayoutDone (mgrs w4 k)"
      by (rule Suc.IH [OF bubble(4)])
        (simp add: pushPath_frame afterEvents_frame ownStages_frame Suc.prems(2))
    then show ?thesis using bubble(5) by (simp add: recordStrategy_frame)
  qed
qed

lemma setStrategy_frame:
  "objs (setStrategy k s w) = objs w" "arrays (setStrategy k s w) = arrays w"
  "next_array (setStrategy k s w) = next_array w" "trace (setStrategy k s w) = trace w"
  "listeners (setStrategy k s w) = listeners w"
  "next_listener (setStrategy k s w) = next_listener w"
  "firstLayoutDone (mgrs (setStrategy k s w) j) = firstLayoutDone (mgrs w j)"
  "prevLayoutStrategy (mgrs (setStrategy k s w) j) = prevLayoutStrategy (mgrs w j)"
  "subscriptions (mgrs (setStrategy k s w) j) = subscriptions (mgrs w j)"
  "registered (setStrategy k s w) j object = registered w j object"
  by (simp_all add: setStrategy_def upd_mgr_def registered_def)

lemma setStrategy_upd_obj:
  "upd_obj i f (setStrategy k s w) = setStrategy k s (upd_obj i f w)"
  by (simp add: setStrategy_def upd_mgr_def upd_obj_def)

lemma setStrategy_emit: "emit ev (setStrategy k s w) = setStrategy k s (emit ev w)"
  by (simp add: setStrategy_def upd_mgr_def emit_def)

lemma strategy_update_commute:
  "mg\<lparr>strategy := s, firstLayoutDone := b\<rparr> = mg\<lparr>firstLayoutDone := b, strategy := s\<rparr>"
  "mg\<lparr>strategy := s, prevLayoutStrategy := q\<rparr> = mg\<lparr>prevLayoutStrategy := q, strategy := s\<rparr>"
  "mg\<lparr>strategy := s, subscriptions := t\<rparr> = mg\<lparr>subscriptions := t, strategy := s\<rparr>"
  by (rule layout_manager.equality; simp)+

lemma setStrategy_upd_mgr_done:
  "upd_mgr m (\<lambda>mg. mg\<lparr>firstLayoutDone := b\<rparr>) (setStrategy k s w) =
   setStrategy k s (upd_mgr m (\<lambda>mg. mg\<lparr>firstLayoutDone := b\<rparr>) w)"
  by (cases "k = m")
    (auto simp add: setStrategy_def upd_mgr_def fun_upd_twist strategy_update_commute)

lemma setStrategy_recordStrategy:
  "recordStrategy m sc (setStrategy k s w) = setStrategy k s (recordStrategy m sc w)"
  by (cases "k = m")
    (auto simp add: setStrategy_def recordStrategy_def upd_mgr_def fun_upd_twist
      strategy_update_commute)

lemma setStrategy_subscribe:
  "subscribe m c object (setStrategy k s w) = setStrategy k s (subscribe m c object w)"
  by (cases "k = m")
    (auto simp add: subscribe_eq setStrategy_frame,
      auto simp add: setStrategy_def upd_mgr_def fun_upd_twist strategy_update_commute)

lemma setStrategy_unsubscribe:
  "unsubscribe m object (setStrategy k s w) = setStrategy k s (unsubscribe m object w)"
  by (simp add: unsubscribe_eq setStrategy_frame) (simp add: setStrategy_def upd_mgr_def)

lemma setStrategy_fold:
  assumes "\<And>x v. f x (setStrategy k s v) = setStrategy k s (f x v)"
  shows "fold f xs (setStrategy k s w) = setStrategy k s (fold f xs w)"
  by (induction xs arbitrary: w) (simp_all add: assms)

lemma setStrategy_onBeforeLayout:
  "onBeforeLayout m c (setStrategy k s w) = setStrategy k s (onBeforeLayout m c w)"
  by (simp add: onBeforeLayout_def Let_def setStrategy_emit
      setStrategy_fold [of "subscribe m c", OF setStrategy_subscribe]
      setStrategy_fold [of "unsubscribe m", OF setStrategy_unsubscribe])

lemma setStrategy_layoutObject:
  "layoutObject lr i (setStrategy k s w) = setStrategy k s (layoutObject lr i w)"
  by (simp add: layoutObject_def Let_def setStrategy_upd_obj setStrategy_frame)

lemma setStrategy_layoutObjects:
  "layoutObjects E c lr (setStrategy k s w) = setStrategy k s (layoutObjects E c lr w)"
proof -
  have f: "(if group_ref (objs (setStrategy k s v) x) = Some t
            then layoutObject lr x (setStrategy k s v) else setStrategy k s v) =
           setStrategy k s (if group_ref (objs v x) = Some t then layoutObject lr x v else v)"
    for x v t
    by (simp add: setStrategy_layoutObject setStrategy_frame)
  show ?thesis
    by (simp add: layoutObjects_def Let_def setStrategy_frame setStrategy_layoutObject
        setStrategy_fold [of "\<lambda>object v. if group_ref (objs v object) = Some (sc_target c)
                                           then layoutObject lr object v else v", OF f]
        split: option.splits)
qed

lemma setStrategy_commitLayout:
  "commitLayout E c lr (setStrategy k s w) = setStrategy k s (commitLayout E c lr w)"
  by (simp add: commitLayout_def Let_def setStrategy_upd_obj setStrategy_layoutObjects
      setStrategy_frame)

lemma setStrategy_ownStages:
  "ownStages E m sc (setStrategy k s w) = setStrategy k s (ownStages E m sc w)"
proof -
  have "getLayoutResult E sc (setStrategy k s w) = getLayoutResult E sc w"
    by (rule getLayoutResult_cong) (simp_all add: setStrategy_frame)
  then show ?thesis
    by (simp add: ownStages_def setStrategy_onBeforeLayout setStrategy_commitLayout
        setStrategy_upd_mgr_done split: option.splits)
qed

lemma setStrategy_ownResult:
  "ownResult E m sc (setStrategy k s w) = ownResult E m sc w"
proof -
  have "getLayoutResult E sc (setStrategy k s w) = getLayoutResult E sc w"
    by (rule getLayoutResult_cong) (simp_all add: setStrategy_frame)
  moreover have "fallbackResult E sc (setStrategy k s w) = fallbackResult E sc w"
    by (rule fallbackResult_cong) (simp add: setStrategy_frame)
  ultimately show ?thesis by (simp add: ownResult_def setStrategy_frame split: option.splits)
qed

lemma setStrategy_afterEvents:
  "afterEvents sc r (setStrategy k s w) = setStrategy k s (afterEvents sc r w)"
  by (simp add: afterEvents_def setStrategy_emit)

lemma setStrategy_pushPath:
  "fst (pushPath sc (setStrategy k s w)) = fst (pushPath sc w)"
  "snd (pushPath sc (setStrategy k s w)) = setStrategy k s (snd (pushPath sc w))"
  by (simp_all add: pushPath_def setStrategy_frame split: option.splits)
    (simp_all add: setStrategy_def upd_mgr_def)

lemma strictContext_carried:
  assumes "given_strategy c \<noteq> None" and "given_strategyChange c \<noteq> None"
  shows "strictContext (mgrs (setStrategy k s w) m) c = strictContext (mgrs w m) c"
  using assms by (auto simp add: strictContext_def setStrategy_frame split: option.splits)

lemma performLayout_setStrategy:
  assumes "given_strategy c \<noteq> None" and "given_strategyChange c \<noteq> None"
  shows "performLayout n E m c (setStrategy k s w) =
         map_option (setStrategy k s) (performLayout n E m c w)"
  using assms
proof (induction n arbitrary: m c w)
  case 0
  then show ?case by simp
next
  case (Suc n)
  let ?sc = "strictContext (mgrs w m) c"
  let ?r = "ownResult E m ?sc w"
  let ?w3 = "ownStages E m ?sc w"
  show ?case
  proof (cases "firstLayoutDone (mgrs w m) \<or> ctx_type c = Initialization")
    case False
    then show ?thesis by (simp add: setStrategy_frame)
  next
    case True
    then have True': "firstLayoutDone (mgrs (setStrategy k s w) m) \<or> ctx_type c = Initialization"
      by (simp add: setStrategy_frame)
    have after: "onAfterLayout n E ?sc ?r (setStrategy k s ?w3) =
        map_option (setStrategy k s) (onAfterLayout n E ?sc ?r ?w3)"
    proof (cases "group_ref (objs ?w3 (sc_target ?sc))")
      case None
      then show ?thesis
        using onAfterLayout_top [of ?w3 ?sc n E ?r]
          onAfterLayout_top [of "setStrategy k s ?w3" ?sc n E ?r]
        by (simp add: setStrategy_frame setStrategy_afterEvents)
    next
      case (Some p)
      show ?thesis
      proof (cases "layoutManager (objs ?w3 p)")
        case None
        with Some show ?thesis
          using onAfterLayout_top [of ?w3 ?sc n E ?r]
            onAfterLayout_top [of "setStrategy k s ?w3" ?sc n E ?r]
          by (simp add: setStrategy_frame setStrategy_afterEvents)
      next
        case pm: (Some pm)
        let ?c' = "bubbledContext (fst (pushPath ?sc (afterEvents ?sc ?r ?w3))) p"
        have carried: "given_strategy ?c' \<noteq> None" "given_strategyChange ?c' \<noteq> None"
          by (simp_all add: bubbledContext_def)
        have g: "group_ref (objs (setStrategy k s ?w3) (sc_target ?sc)) = Some p"
          and l: "layoutManager (objs (setStrategy k s ?w3) p) = Some pm"
          using Some pm by (simp_all add: setStrategy_frame)
        show ?thesis
          unfolding onAfterLayout_bubble [OF Some pm] onAfterLayout_bubble [OF g l]
          by (simp add: setStrategy_afterEvents setStrategy_pushPath Suc.IH [OF carried])
      qed
    qed
    show ?thesis
      unfolding performLayout_pass [OF True] performLayout_pass [OF True']
      by (simp add: strictContext_carried [OF Suc.prems] setStrategy_ownResult
          setStrategy_ownStages after option.map_comp comp_def setStrategy_recordStrategy
          del: onAfterLayout.simps)
  qed
qed

lemma performLayout_pass_trace:
  assumes "firstLayoutDone (mgrs w m) \<or> ctx_type c = Initialization"
    and "performLayout (Suc n) E m c w = Some w'"
  shows "\<exists>rest. trace w' =
           trace w @
           [HookBeforeLayout (target c) (strictContext (mgrs w m) c),
            FireLayoutBefore (target c) (strictContext (mgrs w m) c),
            HookAfterLayout (target c) (strictContext (mgrs w m) c)
              (ownResult E m (strictContext (mgrs w m) c) w),
            FireLayout (target c) (strictContext (mgrs w m) c)
              (ownResult E m (strictContext (mgrs w m) c) w)] @ rest"
  using assms(2)
proof (cases rule: performLayout_cases)
  case dropped
  then show ?thesis using assms(1) by simp
next
  case top
  then show ?thesis by (simp add: recordStrategy_frame afterEvents_frame ownStages_frame)
next
  case (bubble p pm w4)
  from performLayout_trace [OF bubble(4)] bubble(5) show ?thesis
    by (auto simp add: recordStrategy_frame pushPath_frame afterEvents_frame ownStages_frame
        prefix_def)
qed

lemma performLayout_top_objs:
  assumes "firstLayoutDone (mgrs w m) \<or> ctx_type c = Initialization"
    and "performLayout (Suc n) E m c w = Some w'"
    and "group_ref (objs w (target c)) = None \<or>
         (\<exists>p. group_ref (objs w (target c)) = Some p \<and> layoutManager (objs w p) = None)"
  shows "objs w' = objs (ownStages E m (strictContext (mgrs w m) c) w) \<and>
         arrays w' = arrays w"
  using assms(2)
proof (cases rule: performLayout_cases)
  case dropped
  then show ?thesis using assms(1) by simp
next
  case top
  then show ?thesis by (simp add: recordStrategy_frame afterEvents_frame ownStages_frame)
next
  case (bubble p pm w4)
  then show ?thesis using assms(3) by auto
qed

lemma performLayout_records:
  assumes "firstLayoutDone (mgrs w m) \<or> ctx_type c = Initialization"
    and "performLayout (Suc n) E m c w = Some w'"
  shows "prevLayoutStrategy (mgrs w' m) = Some (ctx_strategy (strictContext (mgrs w m) c)) \<and>
         firstLayoutDone (mgrs w' m)"
  using assms(2)
proof (cases rule: performLayout_cases)
  case dropped
  then show ?thesis using assms(1) by simp
next
  case top
  then show ?thesis by (simp add: recordStrategy_frame afterEvents_frame ownStages_frame)
next
  case (bubble p pm w4)
  have "firstLayoutDone (mgrs w4 m)"
    by (rule performLayout_firstLayoutDone [OF bubble(4)])
      (simp add: pushPath_frame afterEvents_frame ownStages_frame)
  then show ?thesis using bubble(5) by (simp add: recordStrategy_frame)
qed

lemma bubbles_within_cong:
  assumes "\<And>j. group_ref (os' j) = group_ref (os j)"
    and "\<And>j. layoutManager (os' j) = layoutManager (os j)"
  shows "bubbles_within k os' t = bubbles_within k os t"
proof (induction k arbitrary: t)
  case 0
  show ?case by (simp add: assms split: option.splits)
next
  case (Suc k)
  show ?case by (simp add: assms Suc.IH split: option.splits)
qed

lemma performLayout_returns:
  assumes "bubbles_within k (objs w) (target c)"
  shows "\<exists>w'. performLayout (Suc k) E m c w = Some w'"
  using assms
proof (induction k arbitrary: m c w)
  case 0
  show ?case
  proof (cases "firstLayoutDone (mgrs w m) \<or> ctx_type c = Initialization")
    case False
    then show ?thesis by simp
  next
    case True
    let ?sc = "strictContext (mgrs w m) c"
    have "group_ref (objs (ownStages E m ?sc w) (sc_target ?sc)) = None \<or>
        (\<exists>p. group_ref (objs (ownStages E m ?sc w) (sc_target ?sc)) = Some p \<and>
             layoutManager (objs (ownStages E m ?sc w) p) = None)"
      using "0.prems" by (auto simp add: ownStages_frame split: option.splits)
    from onAfterLayout_top [OF this] show ?thesis
      unfolding performLayout_pass [OF True] by simp
  qed
next
  case (Suc k)
  show ?case
  proof (cases "firstLayoutDone (mgrs w m) \<or> ctx_type c = Initialization")
    case False
    then show ?thesis by simp
  next
    case True
    let ?sc = "strictContext (mgrs w m) c"
    let ?r = "ownResult E m ?sc w"
    let ?w3 = "ownStages E m ?sc w"
    show ?thesis
    proof (cases "group_ref (objs ?w3 (sc_target ?sc)) = None \<or>
        (\<exists>p. group_ref (objs ?w3 (sc_target ?sc)) = Some p \<and> layoutManager (objs ?w3 p) = None)")
      case top: True
      from onAfterLayout_top [OF this] show ?thesis
        unfolding performLayout_pass [OF True] by simp
    next
      case False
      then obtain p pm where g: "group_ref (objs ?w3 (sc_target ?sc)) = Some p"
        and l: "layoutManager (objs ?w3 p) = Some pm"
        by auto
      let ?w2 = "snd (pushPath ?sc (afterEvents ?sc ?r ?w3))"
      let ?c' = "bubbledContext (fst (pushPath ?sc (afterEvents ?sc ?r ?w3))) p"
      have "bubbles_within k (objs w) p"
        using Suc.prems g l by (simp add: ownStages_frame)
      then have "bubbles_within k (objs ?w2) (target ?c')"
        using bubbles_within_cong [of "objs ?w2" "objs w" k p]
        by (simp add: pushPath_frame afterEvents_frame ownStages_frame bubbledContext_def)
      from Suc.IH [OF this] obtain w4 where "performLayout (Suc k) E pm ?c' ?w2 = Some w4"
        by blast
      then show ?thesis
        unfolding performLayout_pass [OF True] onAfterLayout_bubble [OF g l] by simp
    qed
  qed
qed

lemma performLayout_pushes:
  assumes "firstLayoutDone (mgrs w m) \<or> ctx_type c = Initialization"
    and "group_ref (objs w (target c)) = Some p" and "layoutManager (objs w p) = Some pm"
    and "path c = Some a"
    and "performLayout (Suc n) E m c w = Some w'"
  shows "prefix (arrays w a @ [target c]) (arrays w' a)"
  using assms(5)
proof (cases rule: performLayout_cases)
  case dropped
  then show ?thesis using assms(1) by simp
next
  case top
  then show ?thesis using assms(2,3) by simp
next
  case (bubble p' pm' w4)
  let ?sc = "strictContext (mgrs w m) c"
  let ?w3 = "afterEvents ?sc (ownResult E m ?sc w) (ownStages E m ?sc w)"
  let ?c' = "bubbledContext (fst (pushPath ?sc ?w3)) p'"
  let ?w2 = "snd (pushPath ?sc ?w3)"
  have pushed: "path ?c' = Some a" "arrays ?w2 a = arrays w a @ [target c]"
    using assms(4) by (simp_all add: pushPath_def afterEvents_frame ownStages_frame)
  from performLayout_arrays [OF bubble(4)] pushed(1)
  have "prefix (arrays ?w2 a) (arrays w4 a)" by blast
  then show ?thesis using pushed(2) bubble(5) by (simp add: recordStrategy_frame)
qed

lemma ownStages_listeners_removed:
  assumes "sc_type sc = Removed"
  shows "listeners (ownStages E m sc w) =
     filter (\<lambda>l. \<forall>object \<in> set (sc_targets sc). lid l \<notin> set (registered w m object))
       (listeners w)"
proof -
  have "listeners (onBeforeLayout m sc w) =
     filter (\<lambda>l. \<forall>object \<in> set (sc_targets sc). lid l \<notin> set (registered w m object))
       (listeners w)"
    using assms by (simp add: onBeforeLayout_def emit_def fold_unsubscribe Let_def)
  then show ?thesis
    by (simp add: ownStages_def upd_mgr_def commitLayout_frame split: option.splits)
qed

lemma performLayout_removed_listeners:
  assumes "performLayout n E m c w = Some w'" and "ctx_type c = Removed"
  shows "set (listeners w') \<subseteq> set (listeners w)"
  using assms
proof (induction n arbitrary: m c w w')
  case 0
  then show ?case by simp
next
  case (Suc n)
  let ?sc = "strictContext (mgrs w m) c"
  have ty: "sc_type ?sc = Removed" using Suc.prems(2) by (simp add: strictContext_def)
  from Suc.prems(1) show ?case
  proof (cases rule: performLayout_cases)
    case dropped
    then show ?thesis by simp
  next
    case top
    then show ?thesis
      by (auto simp add: recordStrategy_frame afterEvents_frame ownStages_listeners_removed [OF ty])
  next
    case (bubble p pm w4)
    have "ctx_type (bubbledContext (fst (pushPath ?sc (afterEvents ?sc (ownResult E m ?sc w)
              (ownStages E m ?sc w)))) p) = Removed"
      using ty by (simp add: bubbledContext_def pushPath_def split: option.splits)
    from Suc.IH [OF bubble(4) this] bubble(5) show ?thesis
      by (auto simp add: recordStrategy_frame pushPath_frame afterEvents_frame
          ownStages_listeners_removed [OF ty])
  qed
qed

lemma performLayout_removed_active:
  assumes "subscriptions_ok w" and "ctx_type c = Removed" and "firstLayoutDone (mgrs w m)"
    and "performLayout (Suc n) E m c w = Some w'" and "object \<in> set (targets c)"
  shows "active_listeners w' m object = []"
proof -
  let ?sc = "strictContext (mgrs w m) c"
  have ty: "sc_type ?sc = Removed" "sc_targets ?sc = targets c"
    using assms(2) by (simp_all add: strictContext_def)
  have stage: "set (listeners w') \<subseteq> set (listeners (ownStages E m ?sc w))"
    using assms(4)
  proof (cases rule: performLayout_cases)
    case dropped
    then show ?thesis using assms(3) by simp
  next
    case top
    then show ?thesis by (simp add: recordStrategy_frame afterEvents_frame)
  next
    case (bubble p pm w4)
    have "ctx_type (bubbledContext (fst (pushPath ?sc (afterEvents ?sc (ownResult E m ?sc w)
              (ownStages E m ?sc w)))) p) = Removed"
      using ty by (simp add: bubbledContext_def pushPath_def split: option.splits)
    from performLayout_removed_listeners [OF bubble(4) this] bubble(5) show ?thesis
      by (simp add: recordStrategy_frame pushPath_frame afterEvents_frame)
  qed
  have "lid l \<in> set (registered w m object)"
    if "l \<in> set (listeners w)" "l_owner l = m" "l_object l = object" for l
    using that assms(1) by (auto simp: subscriptions_ok_def)
  then have "\<not> (l_owner l = m \<and> l_object l = object)"
    if "l \<in> set (listeners (ownStages E m ?sc w))" for l
    using that assms(5) by (auto simp add: ownStages_listeners_removed [OF ty(1)] ty(2))
  with stage show ?thesis
    by (auto simp add: active_listeners_def filter_empty_conv)
qed

lemma subscriptions_ok_firstLayoutDone:
  "subscriptions_ok (upd_mgr k (\<lambda>mg. mg\<lparr>firstLayoutDone := b\<rparr>) w) = subscriptions_ok w"
proof -
  have "registered (upd_mgr k (\<lambda>mg. mg\<lparr>firstLayoutDone := b\<rparr>) w) m object =
        registered w m object" for m object
    by (simp add: registered_def upd_mgr_def)
  then show ?thesis by (simp add: subscriptions_ok_def) (simp add: upd_mgr_def)
qed

lemma subscriptions_ok_cong:
  assumes "listeners w' = listeners w" and "next_listener w' = next_listener w"
    and "\<And>k. subscriptions (mgrs w' k) = subscriptions (mgrs w k)"
  shows "subscriptions_ok w' = subscriptions_ok w"
  using assms by (simp add: subscriptions_ok_def registered_def)

lemma unsubscribe_ok:
  assumes "subscriptions_ok w"
  shows "subscriptions_ok (unsubscribe m object w)"
  using assms by (auto simp add: subscriptions_ok_def unsubscribe_eq registered_def)

lemma fold_unsubscribe_ok:
  assumes "subscriptions_ok w"
  shows "subscriptions_ok (fold (unsubscribe m) os w)"
  using assms by (induction os arbitrary: w) (simp_all add: unsubscribe_ok)

lemma fold_subscribe_ok:
  assumes "subscriptions_ok w"
  shows "subscriptions_ok (fold (subscribe m c) os w)"
  using assms
proof (induction os arbitrary: w)
  case Nil
  then show ?case by simp
next
  case (Cons a os)
  from subscribe_active [OF Cons.prems, of m c a] have "subscriptions_ok (subscribe m c a w)"
    by simp
  then show ?case using Cons.IH by simp
qed

lemma onBeforeLayout_ok:
  assumes "subscriptions_ok w"
  shows "subscriptions_ok (onBeforeLayout m c w)"
proof -
  have emit: "subscriptions_ok (emit ev v) = subscriptions_ok v" for ev v
    by (rule subscriptions_ok_cong) (simp_all add: emit_def)
  show ?thesis
    using assms
    by (simp add: onBeforeLayout_def Let_def emit fold_subscribe_ok fold_unsubscribe_ok)
qed

lemma layoutObject_next_listener:
  "next_listener (layoutObject lr i w) = next_listener w"
  by (simp add: layoutObject_def upd_obj_def Let_def)

lemma fold_layoutObject_next_listener:
  "next_listener (fold (\<lambda>object v. if group_ref (objs v object) = Some tgt
                                     then layoutObject lr object v else v) xs w) =
   next_listener w"
  by (induction xs arbitrary: w) (simp_all add: layoutObject_next_listener)

lemma commitLayout_next_listener:
  "next_listener (commitLayout E c lr w) = next_listener w"
  by (simp add: commitLayout_def layoutObjects_def Let_def upd_obj_def
      fold_layoutObject_next_listener layoutObject_next_listener split: option.splits)

lemma ownStages_ok:
  assumes "subscriptions_ok w"
  shows "subscriptions_ok (ownStages E m sc w)"
proof -
  have "subscriptions_ok (ownStages E m sc w) = subscriptions_ok (onBeforeLayout m sc w)"
    by (rule subscriptions_ok_cong)
      (simp_all add: ownStages_def upd_mgr_def commitLayout_frame commitLayout_next_listener
        split: option.splits)
  then show ?thesis using onBeforeLayout_ok [OF assms] by simp
qed

lemma performLayout_ok:
  assumes "performLayout n E m c w = Some w'" and "subscriptions_ok w"
  shows "subscriptions_ok w'"
  using assms
proof (induction n arbitrary: m c w w')
  case 0
  then show ?case by simp
next
  case (Suc n)
  let ?sc = "strictContext (mgrs w m) c"
  let ?w1 = "afterEvents ?sc (ownResult E m ?sc w) (ownStages E m ?sc w)"
  have after: "subscriptions_ok ?w1"
  proof -
    have "subscriptions_ok ?w1 = subscriptions_ok (ownStages E m ?sc w)"
      by (rule subscriptions_ok_cong) (simp_all add: afterEvents_def emit_def)
    then show ?thesis using ownStages_ok [OF Suc.prems(2)] by simp
  qed
  have rec: "subscriptions_ok (recordStrategy m ?sc v) = subscriptions_ok v" for v
    by (rule subscriptions_ok_cong) (simp_all add: recordStrategy_def upd_mgr_def)
  from Suc.prems(1) show ?case
  proof (cases rule: performLayout_cases)
    case dropped
    then show ?thesis using Suc.prems(2) by simp
  next
    case top
    then show ?thesis using after rec by simp
  next
    case (bubble p pm w4)
    have "subscriptions_ok (snd (pushPath ?sc ?w1)) = subscriptions_ok ?w1"
      by (rule subscriptions_ok_cong) (simp_all add: pushPath_def split: option.splits)
    with after have "subscriptions_ok (snd (pushPath ?sc ?w1))" by simp
    from Suc.IH [OF bubble(4) this] bubble(5) rec show ?thesis by simp
  qed
qed

subsection \<open>Requests before the first layout\<close>

text \<open>
  Claim C2. A manager whose first layout is not done drops every request whose type is not
  \<open>initialization\<close>: \<open>performLayout\<close> returns the state it was given. The state holds the
  listeners and the subscription tables, the trace of hooks and events, the geometry of
  every object and the two fields of the manager, so none of them changes.
\<close>

theorem performLayout_dropped:
  assumes "\<not> firstLayoutDone (mgrs w this)" and "ctx_type context \<noteq> Initialization"
  shows "performLayout (Suc n) E this context w = Some w"
  using assms by simp

text \<open>Claim C2, on the scene: a request of type \<open>added\<close> to the fresh manager 2.\<close>

theorem performLayout_dropped_witness:
  "\<not> firstLayoutDone (mgrs demoWorld 2) \<and> ctx_type (demoContext Added 2) \<noteq> Initialization \<and>
   performLayout (Suc 0) demoEnv 2 (demoContext Added 2) demoWorld = Some demoWorld"
  using performLayout_dropped [of demoWorld 2 "demoContext Added 2" 0 demoEnv]
  by (simp add: demoWorld_def demoContext_def demoManager_def)

subsection \<open>The offset of the children\<close>

text \<open>
  Claim C1. When the strategy answers a result, \<open>getLayoutResult\<close> returns it with the next
  centre taken from the result and the previous centre being the zero point on
  \<open>initialization\<close> and the current relative centre of the container otherwise. The offset
  is \<open>transform (prevCenter - nextCenter + correction) M + relativeCorrection\<close>, where \<open>M\<close> is
  the identity on \<open>initialization\<close> and the inverse of the container's own matrix otherwise,
  applied as to a vector (the translation of \<open>M\<close> is ignored); an absent correction counts
  as 0; on \<open>initialization\<close> with objects relative to the group the offset is the zero point.
\<close>

theorem getLayoutResult_offset:
  assumes "calcLayoutResult E (ctx_strategy context) (objs w) (arrays w) context
             (own_objects (objs w (sc_target context))) = Some res"
  shows "\<exists>lr. getLayoutResult E context w = Some lr \<and> result lr = res \<and>
           nextCenter lr = Point (centerX res) (centerY res) \<and>
           prevCenter lr = (if sc_type context = Initialization then zeroPoint
                            else getRelativeCenterPoint E (objs w (sc_target context))) \<and>
           offset lr =
             (if sc_type context = Initialization \<and> sc_objectsRelativeToGroup context
              then zeroPoint
              else add (transform
                          (add (subtract (prevCenter lr) (nextCenter lr))
                               (Point (case correctionX res of None \<Rightarrow> 0 | Some v \<Rightarrow> v)
                                      (case correctionY res of None \<Rightarrow> 0 | Some v \<Rightarrow> v)))
                          (if sc_type context = Initialization then iMatrix
                           else invertTransform (calcOwnMatrix E (objs w (sc_target context))))
                          True)
                       (Point (case relativeCorrectionX res of None \<Rightarrow> 0 | Some v \<Rightarrow> v)
                              (case relativeCorrectionY res of None \<Rightarrow> 0 | Some v \<Rightarrow> v)))"
  using assms by (simp add: getLayoutResult_def Let_def orZero_def)

text \<open>
  Claim C1, on the scene: group 2 has centre \<open>(4, 6)\<close> and scale \<open>(2, 4)\<close>, the strategy
  answers the centre \<open>(10, 20)\<close>, so the offset is \<open>((4 - 10) / 2, (6 - 20) / 4)\<close>.
\<close>

theorem getLayoutResult_offset_witness:
  "calcLayoutResult demoEnv (ctx_strategy (demoStrict Added 2)) (objs demoWorld)
     (arrays demoWorld) (demoStrict Added 2)
     (own_objects (objs demoWorld (sc_target (demoStrict Added 2)))) = Some demoBox \<and>
   (\<exists>lr. getLayoutResult demoEnv (demoStrict Added 2) demoWorld = Some lr \<and>
          prevCenter lr = Point 4 6 \<and> nextCenter lr = Point 10 20 \<and>
          offset lr = Point (- 3) (- 7 / 2))"
proof -
  have h: "calcLayoutResult demoEnv (ctx_strategy (demoStrict Added 2)) (objs demoWorld)
     (arrays demoWorld) (demoStrict Added 2)
     (own_objects (objs demoWorld (sc_target (demoStrict Added 2)))) = Some demoBox"
    by (simp add: demoStrict_def strictContext_def demoContext_def demoManager_def demoEnv_def)
  show ?thesis
    using h getLayoutResult_offset [OF h]
    by (auto simp add: demo_defs zeroPoint_def)
qed

subsection \<open>A layout that changes nothing\<close>

text \<open>
  Claim C6, as stated, fails in its second half: the same result applied twice can move
  the children twice. On the scene with group 2 at top level, scaled by \<open>(2, 4)\<close> and with
  its origin at the left and top, the strategy answers the same box, without corrections,
  in both passes and no child is touched in between. The first layout puts child 4 at
  \<open>(-9, -18)\<close> and positions the group without its scale, so that its centre is not the
  centre of the box; the second pass, of type \<open>added\<close>, moves child 4 on to \<open>(41, 39 / 2)\<close>.
\<close>

theorem round_trip_counterexample:
  "determinant (calcOwnMatrix originEnv (objs demoLeftTop 2)) = 8 \<and>
   map_option (position_of 4)
     (performLayout (Suc 0) originEnv 2 (demoContext Initialization 2) demoLeftTop) =
   Some (Point (- 9) (- 18)) \<and>
   map_option (position_of 4)
     (Option.bind
        (performLayout (Suc 0) originEnv 2 (demoContext Initialization 2) demoLeftTop)
        (performLayout (Suc 0) originEnv 2 (demoContext Added 2))) =
   Some (Point 41 (39 / 2))"
  by (simp add: eval_defs originEnv_def demoLeftTop_def demoResolveOrigin_def position_of_def)

text \<open>
  Claim C6, amended. In a pass that is not an \<open>initialization\<close>, when the four corrections
  of the result are absent or 0, the own matrix of the container is invertible and the
  centre of the result is the current relative centre of the container, the computed
  offset is the zero point; laying out the children with it changes nothing, and after
  the commit every object has the left and top it had before. Such a pass of a manager
  whose first layout is done, on a container without a parent group, returns a state in
  which every object is where it was. So a second pass with the same result leaves every
  child where the first one put it whenever the first pass has left the centre of the
  container at the centre of the result, which the code does not ensure in general.
\<close>

theorem unchanged_geometry_moves_nothing:
  assumes "sc_type context \<noteq> Initialization"
    and "calcLayoutResult E (ctx_strategy context) (objs w) (arrays w) context
           (own_objects (objs w (sc_target context))) = Some res"
    and "correctionX res = None \<or> correctionX res = Some 0"
    and "correctionY res = None \<or> correctionY res = Some 0"
    and "relativeCorrectionX res = None \<or> relativeCorrectionX res = Some 0"
    and "relativeCorrectionY res = None \<or> relativeCorrectionY res = Some 0"
    and "getRelativeCenterPoint E (objs w (sc_target context)) =
           Point (centerX res) (centerY res)"
    and "determinant (calcOwnMatrix E (objs w (sc_target context))) \<noteq> 0"
  shows "(\<exists>lr. getLayoutResult E context w = Some lr \<and> offset lr = zeroPoint \<and>
           layoutObjects E context lr w = w \<and>
           (\<forall>i. left_coord (objs (commitLayout E context lr w) i) = left_coord (objs w i) \<and>
                top_coord (objs (commitLayout E context lr w) i) = top_coord (objs w i))) \<and>
         (\<forall>this request n w'.
            context = strictContext (mgrs w this) request \<and> firstLayoutDone (mgrs w this) \<and>
            group_ref (objs w (target request)) = None \<and>
            performLayout (Suc n) E this request w = Some w' \<longrightarrow>
            (\<forall>i. position_of i w' = position_of i w))"
proof -
  let ?M = "invertTransform (calcOwnMatrix E (objs w (sc_target context)))"
  define lr where "lr = \<lparr>result = res,
      prevCenter = Point (centerX res) (centerY res),
      nextCenter = Point (centerX res) (centerY res), offset = zeroPoint\<rparr>"
  have corr: "orZero (correctionX res) = 0" "orZero (correctionY res) = 0"
    "orZero (relativeCorrectionX res) = 0" "orZero (relativeCorrectionY res) = 0"
    using assms(3-6) by (auto simp: orZero_def)
  have "add (transform (Point 0 0) ?M True) (Point 0 0) = zeroPoint"
    using transform_zero [of ?M] by (simp add: zeroPoint_def)
  then have get: "getLayoutResult E context w = Some lr"
    using assms(1,2,7) corr by (simp add: getLayoutResult_def Let_def lr_def)
  have off: "offset lr = zeroPoint" by (simp add: lr_def)
  have lay: "layoutObjects E context lr v = v" for v
    using off by (rule layoutObjects_zero)
  have pos: "left_coord (objs (commitLayout E context lr v) i) = left_coord (objs v i) \<and>
             top_coord (objs (commitLayout E context lr v) i) = top_coord (objs v i)" for i v
  proof -
    have same: "eq_point (nextCenter lr) (prevCenter lr)" by (simp add: lr_def)
    show ?thesis
      using assms(1) same by (simp add: commitLayout_def Let_def lay upd_obj_def)
  qed
  have pass: "position_of i w' = position_of i w"
    if "context = strictContext (mgrs w this) request" "firstLayoutDone (mgrs w this)"
      "group_ref (objs w (target request)) = None"
      "performLayout (Suc n) E this request w = Some w'"
    for this request n w' i
  proof -
    have "objs w' = objs (ownStages E this context w)"
      using performLayout_top_objs [of w this request n E w'] that by simp
    then have "objs w' = objs (commitLayout E context lr (onBeforeLayout this context w))"
      using get by (simp add: ownStages_objs)
    then show ?thesis
      using pos [of "onBeforeLayout this context w" i]
      by (simp add: position_of_def onBeforeLayout_frame)
  qed
  show ?thesis using get off lay pos pass by blast
qed

text \<open>
  Claim C6, amended, on the scene with group 2 at top level and its origin at the centre:
  the first layout leaves the centre of group 2 at the centre \<open>(10, 20)\<close> of the box and
  child 4 at \<open>(-9, -18)\<close>; the second pass, of type \<open>added\<close>, leaves child 4 there.
\<close>

theorem unchanged_geometry_moves_nothing_witness:
  "performLayout (Suc 0) demoEnv 2 (demoContext Initialization 2) demoTop = Some demoAfterInit \<and>
   sc_type (strictContext (mgrs demoAfterInit 2) (demoContext Added 2)) \<noteq> Initialization \<and>
   calcLayoutResult demoEnv
     (ctx_strategy (strictContext (mgrs demoAfterInit 2) (demoContext Added 2)))
     (objs demoAfterInit) (arrays demoAfterInit)
     (strictContext (mgrs demoAfterInit 2) (demoContext Added 2))
     (own_objects (objs demoAfterInit
        (sc_target (strictContext (mgrs demoAfterInit 2) (demoContext Added 2))))) =
     Some demoBox \<and>
   correctionX demoBox = None \<and> correctionY demoBox = None \<and>
   relativeCorrectionX demoBox = None \<and> relativeCorrectionY demoBox = None \<and>
   getRelativeCenterPoint demoEnv (objs demoAfterInit 2) =
     Point (centerX demoBox) (centerY demoBox) \<and>
   determinant (calcOwnMatrix demoEnv (objs demoAfterInit 2)) = 8 \<and>
   firstLayoutDone (mgrs demoAfterInit 2) \<and>
   group_ref (objs demoAfterInit (target (demoContext Added 2))) = None \<and>
   position_of 4 demoAfterInit = Point (- 9) (- 18) \<and>
   (\<exists>w'. performLayout (Suc 0) demoEnv 2 (demoContext Added 2) demoAfterInit = Some w' \<and>
          position_of 4 w' = Point (- 9) (- 18))"
proof -
  let ?sc = "strictContext (mgrs demoAfterInit 2) (demoContext Added 2)"
  note after_defs = demoAfterInit_def demoTop_def recordStrategy_def afterEvents_def
    ownResult_def ownStages_def eval_defs
  have run1: "performLayout (Suc 0) demoEnv 2 (demoContext Initialization 2) demoTop =
      Some demoAfterInit"
    by (simp add: after_defs)
  have tgt: "sc_target ?sc = 2" "target (demoContext Added 2) = 2"
    by (simp_all add: demoContext_def)
  have h1: "sc_type ?sc \<noteq> Initialization"
    by (simp add: strictContext_def demoContext_def)
  have h2: "calcLayoutResult demoEnv (ctx_strategy ?sc) (objs demoAfterInit)
      (arrays demoAfterInit) ?sc (own_objects (objs demoAfterInit (sc_target ?sc))) =
      Some demoBox"
    by (simp add: after_defs)
  have h3: "correctionX demoBox = None \<or> correctionX demoBox = Some 0"
    and h4: "correctionY demoBox = None \<or> correctionY demoBox = Some 0"
    and h5: "relativeCorrectionX demoBox = None \<or> relativeCorrectionX demoBox = Some 0"
    and h6: "relativeCorrectionY demoBox = None \<or> relativeCorrectionY demoBox = Some 0"
    by (simp_all add: demoBox_def)
  have none: "correctionX demoBox = None \<and> correctionY demoBox = None \<and>
      relativeCorrectionX demoBox = None \<and> relativeCorrectionY demoBox = None"
    by (simp add: demoBox_def)
  have centre: "getRelativeCenterPoint demoEnv (objs demoAfterInit 2) =
      Point (centerX demoBox) (centerY demoBox)"
    by (simp add: after_defs)
  have det: "determinant (calcOwnMatrix demoEnv (objs demoAfterInit 2)) = 8"
    by (simp add: after_defs)
  have laid: "firstLayoutDone (mgrs demoAfterInit 2)"
    by (simp add: after_defs)
  have toplevel: "group_ref (objs demoAfterInit (target (demoContext Added 2))) = None"
    by (simp add: after_defs)
  have pos: "position_of 4 demoAfterInit = Point (- 9) (- 18)"
    by (simp add: after_defs position_of_def)
  have "bubbles_within 0 (objs demoAfterInit) (target (demoContext Added 2))"
    using toplevel by simp
  from performLayout_returns [OF this, of demoEnv 2]
  obtain w' where run2: "performLayout (Suc 0) demoEnv 2 (demoContext Added 2) demoAfterInit =
      Some w'"
    by blast
  have h7: "getRelativeCenterPoint demoEnv (objs demoAfterInit (sc_target ?sc)) =
      Point (centerX demoBox) (centerY demoBox)"
    using centre tgt by simp
  have h8: "determinant (calcOwnMatrix demoEnv (objs demoAfterInit (sc_target ?sc))) \<noteq> 0"
    using det tgt by simp
  from unchanged_geometry_moves_nothing [OF h1 h2 h3 h4 h5 h6 h7 h8] laid toplevel run2
  have "position_of 4 w' = position_of 4 demoAfterInit" by blast
  then have "position_of 4 w' = Point (- 9) (- 18)" using pos by simp
  with run1 h1 h2 none centre det laid toplevel pos run2 show ?thesis by blast
qed

subsection \<open>Subscriptions\<close>

text \<open>
  Claim C5. From a state in which every active listener is held by the table of its
  manager (a state without listeners is one, and every call of \<open>performLayout\<close> that
  returns leads to one again), \<open>subscribe\<close> keeps that property and, for the manager and
  the object it is called for: every listener that the table held for the object is gone; the table now
  holds a list of eight new disposers; the listeners of the manager that are active on
  the object are exactly the ones of that list. A second \<open>subscribe\<close> for the same object
  leaves again eight distinct active listeners, those of the table, not sixteen. In a pass
  of type \<open>removed\<close> the stage before the layout leaves no active listener of the manager
  on any object of \<open>targets\<close>, and none is there when a pass that is not dropped returns.
\<close>

theorem subscribe_single_set:
  assumes "subscriptions_ok w"
  shows "subscriptions_ok (subscribe m c object w) \<and>
         (\<forall>l \<in> set (listeners w). lid l \<in> set (registered w m object) \<longrightarrow>
              lid l \<notin> lid ` set (listeners (subscribe m c object w))) \<and>
         registered (subscribe m c object w) m object =
           [next_listener w ..< next_listener w + 8] \<and>
         active_listeners (subscribe m c object w) m object =
           registered (subscribe m c object w) m object \<and>
         active_listeners (subscribe m c' object (subscribe m c object w)) m object =
           registered (subscribe m c' object (subscribe m c object w)) m object \<and>
         length (active_listeners (subscribe m c' object (subscribe m c object w)) m object) = 8 \<and>
         distinct (active_listeners (subscribe m c' object (subscribe m c object w)) m object) \<and>
         (sc_type c = Removed \<longrightarrow>
            (\<forall>object' \<in> set (sc_targets c).
               active_listeners (onBeforeLayout m c w) m object' = [])) \<and>
         (\<forall>n E request w'.
            ctx_type request = Removed \<and> firstLayoutDone (mgrs w m) \<and>
            performLayout (Suc n) E m request w = Some w' \<longrightarrow>
            (\<forall>object' \<in> set (targets request). active_listeners w' m object' = [])) \<and>
         (\<forall>n E k request w'.
            performLayout n E k request w = Some w' \<longrightarrow> subscriptions_ok w')"
proof -
  let ?w' = "subscribe m c object w"
  let ?w'' = "subscribe m c' object ?w'"
  have ids: "map (\<lambda>i. k + i) [0, 1, 2, 3, 4, 5, 6, 7] = [k ..< k + 8]" for k :: nat
    by (simp add: upt_rec [of k] upt_rec [of "Suc k"] eval_nat_numeral)
  note first = subscribe_active [OF assms, of m c object]
  then have ok': "subscriptions_ok ?w'" by simp
  note second = subscribe_active [OF ok', of m c' object]
  have gone: "lid l \<notin> lid ` set (listeners ?w')"
    if "l \<in> set (listeners w)" "lid l \<in> set (registered w m object)" for l
  proof -
    have "lid l < next_listener w" using that(1) assms by (simp add: subscriptions_ok_def)
    then have "lid l \<notin> set (map lid (fresh_listeners m object (sc_target c) (next_listener w)))"
      by (simp add: fresh_listeners_props)
    then show ?thesis using that(2) by (auto simp: subscribe_eq)
  qed
  have removed: "active_listeners (onBeforeLayout m c w) m object' = []"
    if "sc_type c = Removed" "object' \<in> set (sc_targets c)" for object'
  proof -
    have "listeners (onBeforeLayout m c w) =
        filter (\<lambda>l. \<forall>ob \<in> set (sc_targets c). lid l \<notin> set (registered w m ob)) (listeners w)"
      using that(1) by (simp add: onBeforeLayout_def emit_def fold_unsubscribe Let_def)
    moreover have "lid l \<in> set (registered w m object')"
      if "l \<in> set (listeners w)" "l_owner l = m" "l_object l = object'" for l
      using that assms by (auto simp: subscriptions_ok_def)
    ultimately show ?thesis
      using that(2) by (auto simp: active_listeners_def filter_empty_conv)
  qed
  have c1: "registered ?w' m object = [next_listener w ..< next_listener w + 8]"
    using first by (simp only: ids)
  have c2: "active_listeners ?w' m object = registered ?w' m object"
    using first by simp
  have c3: "active_listeners ?w'' m object = registered ?w'' m object"
    using second by simp
  have c4: "length (active_listeners ?w'' m object) = 8"
    using second by simp
  have "distinct (map (\<lambda>i. k + i) [0, 1, 2, 3, 4, 5, 6, 7])" for k :: nat
    by simp
  then have c5: "distinct (active_listeners ?w'' m object)"
    using second by simp
  have pass: "active_listeners w' m object' = []"
    if "ctx_type request = Removed" "firstLayoutDone (mgrs w m)"
      "performLayout (Suc n) E m request w = Some w'" "object' \<in> set (targets request)"
    for n E request w' object'
    using performLayout_removed_active [OF assms that] .
  have kept: "subscriptions_ok w'" if "performLayout n E k request w = Some w'"
    for n E k request w'
    using performLayout_ok [OF that assms] .
  show ?thesis
    using ok' gone c1 c2 c3 c4 c5 removed pass kept by blast
qed

text \<open>
  Claim C5, on the scene: manager 2 has subscribed to object 4; a second subscription
  replaces the listeners 0 to 7 by 8 to 15, and the removal of object 4 leaves none.
\<close>

theorem subscribe_single_set_witness:
  "subscriptions_ok demoSubscribed \<and>
   active_listeners demoSubscribed 2 4 = [0, 1, 2, 3, 4, 5, 6, 7] \<and>
   registered demoSubscribed 2 4 = [0, 1, 2, 3, 4, 5, 6, 7] \<and>
   registered (subscribe 2 demoRemoval 4 demoSubscribed) 2 4 = [8 ..< 16] \<and>
   active_listeners (subscribe 2 demoRemoval 4 demoSubscribed) 2 4 = [8 ..< 16] \<and>
   sc_type demoRemoval = Removed \<and> 4 \<in> set (sc_targets demoRemoval) \<and>
   active_listeners (onBeforeLayout 2 demoRemoval demoSubscribed) 2 4 = [] \<and>
   ctx_type demoRemovalRequest = Removed \<and> firstLayoutDone (mgrs demoSubscribed 2) \<and>
   4 \<in> set (targets demoRemovalRequest) \<and>
   (\<exists>w'. performLayout (Suc (Suc 0)) demoEnv 2 demoRemovalRequest demoSubscribed = Some w' \<and>
          active_listeners w' 2 4 = [])"
proof -
  have ok0: "subscriptions_ok demoWorld"
    by (simp add: subscriptions_ok_def demoWorld_def)
  from subscribe_single_set [OF ok0, of 2 "demoStrict Initialization 2" 4]
  have "subscriptions_ok (subscribe 2 (demoStrict Initialization 2) 4 demoWorld)"
    by blast
  then have ok: "subscriptions_ok demoSubscribed"
    by (simp only: demoSubscribed_def subscriptions_ok_firstLayoutDone)
  have act: "active_listeners demoSubscribed 2 4 = [0, 1, 2, 3, 4, 5, 6, 7]"
    by (simp add: demoSubscribed_def subscribe_eq active_listeners_def fresh_listeners_def
        demoWorld_def upd_mgr_def)
  have reg: "registered demoSubscribed 2 4 = [0, 1, 2, 3, 4, 5, 6, 7]"
    by (simp add: demoSubscribed_def subscribe_eq registered_def demoWorld_def upd_mgr_def)
  have nxt: "next_listener demoSubscribed = 8"
    by (simp add: demoSubscribed_def subscribe_eq demoWorld_def upd_mgr_def)
  have rem: "sc_type demoRemoval = Removed" "4 \<in> set (sc_targets demoRemoval)"
    by (simp_all add: demoRemoval_def demo_defs)
  have req: "ctx_type demoRemovalRequest = Removed" "firstLayoutDone (mgrs demoSubscribed 2)"
    "4 \<in> set (targets demoRemovalRequest)"
    by (simp_all add: demoRemovalRequest_def demoContext_def demoSubscribed_def upd_mgr_def)
  have "bubbles_within (Suc 0) (objs demoSubscribed) (target demoRemovalRequest)"
    by (simp add: demoRemovalRequest_def demoContext_def demoSubscribed_def subscribe_eq
        upd_mgr_def demoWorld_def demoObject_def)
  from performLayout_returns [OF this, of demoEnv 2]
  obtain w' where
    run: "performLayout (Suc (Suc 0)) demoEnv 2 demoRemovalRequest demoSubscribed = Some w'"
    by blast
  note inst = subscribe_single_set [OF ok, of 2 demoRemoval 4 demoRemoval]
  from inst rem nxt
  have "registered (subscribe 2 demoRemoval 4 demoSubscribed) 2 4 = [8 ..< 16]"
    and "active_listeners (subscribe 2 demoRemoval 4 demoSubscribed) 2 4 = [8 ..< 16]"
    and "active_listeners (onBeforeLayout 2 demoRemoval demoSubscribed) 2 4 = []"
    by simp_all
  moreover from inst req run have "active_listeners w' 2 4 = []" by blast
  ultimately show ?thesis using ok act reg rem req run by blast
qed

subsection \<open>The first layout of a declining strategy\<close>

text \<open>
  Claim C3. On the first layout of a container (the manager has done none, the type is
  \<open>initialization\<close>), when the strategy answers no result, \<open>performLayout\<close> calls the
  after-hook with a result \<open>fb\<close> whose previous and next centre are the current relative
  centre of the container, whose offset is the zero point and whose width and height are
  those of the container. The state \<open>w3\<close> in which the after-hook runs is the one the
  before-hook left, with the flag \<open>firstLayoutDone\<close> set: nothing was committed, every
  object is as at the start. When the call returns, the hook and the event after the
  layout follow the two before the layout in the trace, with \<open>fb\<close>, and a container
  without a parent group leaves every object as it was. With fuel for the length of the
  chain of parents the call returns.
\<close>

theorem fallback_on_first_layout:
  assumes "\<not> firstLayoutDone (mgrs w this)" and "ctx_type context = Initialization"
    and "sc = strictContext (mgrs w this) context"
    and "calcLayoutResult E (ctx_strategy sc) (objs w) (arrays w) sc
           (own_objects (objs w (target context))) = None"
    and "ctr = getRelativeCenterPoint E (objs w (target context))"
    and "fb = \<lparr>result = \<lparr>centerX = px ctr, centerY = py ctr,
                           res_width = width (objs w (target context)),
                           res_height = height (objs w (target context)),
                           correctionX = None, correctionY = None,
                           relativeCorrectionX = None, relativeCorrectionY = None\<rparr>,
                 prevCenter = ctr, nextCenter = ctr, offset = Point 0 0\<rparr>"
    and "w3 = upd_mgr this (\<lambda>mg. mg\<lparr>firstLayoutDone := True\<rparr>) (onBeforeLayout this sc w)"
  shows "performLayout (Suc n) E this context w =
           map_option (upd_mgr this (\<lambda>mg. mg\<lparr>prevLayoutStrategy := Some (ctx_strategy sc)\<rparr>))
             (onAfterLayout n E sc (Some fb) w3) \<and>
         objs w3 = objs w \<and>
         (\<forall>w'. performLayout (Suc n) E this context w = Some w' \<longrightarrow>
            (\<exists>rest. trace w' =
               trace w @
               [HookBeforeLayout (target context) sc, FireLayoutBefore (target context) sc,
                HookAfterLayout (target context) sc (Some fb),
                FireLayout (target context) sc (Some fb)] @ rest) \<and>
            (group_ref (objs w (target context)) = None \<longrightarrow> objs w' = objs w)) \<and>
         (bubbles_within n (objs w) (target context) \<longrightarrow>
            (\<exists>w'. performLayout (Suc n) E this context w = Some w'))"
proof -
  have pass: "firstLayoutDone (mgrs w this) \<or> ctx_type context = Initialization"
    using assms(2) by simp
  have none: "getLayoutResult E sc w = None"
    using assms(3,4) by (simp add: getLayoutResult_def Let_def)
  have res: "ownResult E this sc w = Some fb"
    using none assms(1,3,5,6)
    by (simp add: ownResult_def fallbackResult_def Let_def zeroPoint_def)
  have stages: "ownStages E this sc w = w3"
    using none assms(7) by (simp add: ownStages_def)
  have eq: "performLayout (Suc n) E this context w =
           map_option (upd_mgr this (\<lambda>mg. mg\<lparr>prevLayoutStrategy := Some (ctx_strategy sc)\<rparr>))
             (onAfterLayout n E sc (Some fb) w3)"
    using performLayout_pass [OF pass, of n E] res stages assms(3)
    by (simp add: recordStrategy_def [abs_def] del: onAfterLayout.simps)
  have objs3: "objs w3 = objs w"
    using assms(7) by (simp add: upd_mgr_def onBeforeLayout_frame)
  have tr: "\<exists>rest. trace w' =
               trace w @
               [HookBeforeLayout (target context) sc, FireLayoutBefore (target context) sc,
                HookAfterLayout (target context) sc (Some fb),
                FireLayout (target context) sc (Some fb)] @ rest"
    if "performLayout (Suc n) E this context w = Some w'" for w'
    using performLayout_pass_trace [OF pass that] res assms(3) by simp
  have top: "objs w' = objs w"
    if "performLayout (Suc n) E this context w = Some w'"
      "group_ref (objs w (target context)) = None" for w'
    using performLayout_top_objs [OF pass that(1)] that(2) stages objs3 assms(3) by simp
  have returns: "bubbles_within n (objs w) (target context) \<longrightarrow>
      (\<exists>w'. performLayout (Suc n) E this context w = Some w')"
    using performLayout_returns [of n w "context" E this] by blast
  show ?thesis using eq objs3 tr top returns by blast
qed

text \<open>
  Claim C3, on the scene: the strategy of manager 2 declines on the first layout of
  group 2, whose centre is \<open>(4, 6)\<close> and whose size is 50 by 40.
\<close>

theorem fallback_on_first_layout_witness:
  "\<not> firstLayoutDone (mgrs demoDeclining 2) \<and>
   ctx_type (demoContext Initialization 2) = Initialization \<and>
   calcLayoutResult demoEnv
     (ctx_strategy (strictContext (mgrs demoDeclining 2) (demoContext Initialization 2)))
     (objs demoDeclining) (arrays demoDeclining)
     (strictContext (mgrs demoDeclining 2) (demoContext Initialization 2))
     (own_objects (objs demoDeclining (target (demoContext Initialization 2)))) = None \<and>
   (\<exists>w' rest.
      performLayout (Suc (Suc 0)) demoEnv 2 (demoContext Initialization 2) demoDeclining =
        Some w' \<and>
      trace w' =
        [HookBeforeLayout 2 (strictContext (mgrs demoDeclining 2) (demoContext Initialization 2)),
         FireLayoutBefore 2 (strictContext (mgrs demoDeclining 2) (demoContext Initialization 2)),
         HookAfterLayout 2 (strictContext (mgrs demoDeclining 2) (demoContext Initialization 2))
           (Some \<lparr>result = \<lparr>centerX = 4, centerY = 6, res_width = 50, res_height = 40,
                             correctionX = None, correctionY = None,
                             relativeCorrectionX = None, relativeCorrectionY = None\<rparr>,
                   prevCenter = Point 4 6, nextCenter = Point 4 6, offset = Point 0 0\<rparr>),
         FireLayout 2 (strictContext (mgrs demoDeclining 2) (demoContext Initialization 2))
           (Some \<lparr>result = \<lparr>centerX = 4, centerY = 6, res_width = 50, res_height = 40,
                             correctionX = None, correctionY = None,
                             relativeCorrectionX = None, relativeCorrectionY = None\<rparr>,
                   prevCenter = Point 4 6, nextCenter = Point 4 6, offset = Point 0 0\<rparr>)] @ rest)"
proof -
  let ?c = "demoContext Initialization 2"
  let ?sc = "strictContext (mgrs demoDeclining 2) ?c"
  let ?ctr = "getRelativeCenterPoint demoEnv (objs demoDeclining (target ?c))"
  let ?fb = "\<lparr>result = \<lparr>centerX = px ?ctr, centerY = py ?ctr,
                          res_width = width (objs demoDeclining (target ?c)),
                          res_height = height (objs demoDeclining (target ?c)),
                          correctionX = None, correctionY = None,
                          relativeCorrectionX = None, relativeCorrectionY = None\<rparr>,
                prevCenter = ?ctr, nextCenter = ?ctr, offset = Point 0 0\<rparr>"
  have h1: "\<not> firstLayoutDone (mgrs demoDeclining 2)"
    by (simp add: demoDeclining_def demoManager_def)
  have h2: "ctx_type ?c = Initialization" by (simp add: demoContext_def)
  have h4: "calcLayoutResult demoEnv (ctx_strategy ?sc) (objs demoDeclining) (arrays demoDeclining)
      ?sc (own_objects (objs demoDeclining (target ?c))) = None"
    by (simp add: demoDeclining_def demoManager_def demoContext_def demoEnv_def strictContext_def)
  have "performLayout (Suc (Suc 0)) demoEnv 2 ?c demoDeclining \<noteq> None"
    by (simp add: eval_defs)
  then obtain w' where run: "performLayout (Suc (Suc 0)) demoEnv 2 ?c demoDeclining = Some w'"
    by blast
  have vals: "getRelativeCenterPoint demoEnv (objs demoDeclining 2) = Point 4 6"
    "width (objs demoDeclining 2) = 50" "height (objs demoDeclining 2) = 40"
    "trace demoDeclining = []" "target ?c = 2"
    by (simp_all add: demoDeclining_def demo_defs)
  from fallback_on_first_layout [OF h1 h2 refl h4 refl refl refl, of "Suc 0"] run
  obtain rest where "trace w' =
        trace demoDeclining @
        [HookBeforeLayout (target ?c) ?sc, FireLayoutBefore (target ?c) ?sc,
         HookAfterLayout (target ?c) ?sc (Some ?fb), FireLayout (target ?c) ?sc (Some ?fb)] @ rest"
    by blast
  then have "trace w' =
        [HookBeforeLayout 2 ?sc, FireLayoutBefore 2 ?sc,
         HookAfterLayout 2 ?sc
           (Some \<lparr>result = \<lparr>centerX = 4, centerY = 6, res_width = 50, res_height = 40,
                             correctionX = None, correctionY = None,
                             relativeCorrectionX = None, relativeCorrectionY = None\<rparr>,
                   prevCenter = Point 4 6, nextCenter = Point 4 6, offset = Point 0 0\<rparr>),
         FireLayout 2 ?sc
           (Some \<lparr>result = \<lparr>centerX = 4, centerY = 6, res_width = 50, res_height = 40,
                             correctionX = None, correctionY = None,
                             relativeCorrectionX = None, relativeCorrectionY = None\<rparr>,
                   prevCenter = Point 4 6, nextCenter = Point 4 6, offset = Point 0 0\<rparr>)] @ rest"
    by (simp add: vals)
  with h1 h2 h4 run show ?thesis by blast
qed

subsection \<open>Bubbling\<close>



subsection \<open>The strategy change flag\<close>

text \<open>
  Claim C7, as stated, fails for a context that already carries a \<open>strategyChange\<close> field,
  as every bubbled context does. On the scene, manager 3 has recorded the strategy
  \<open>FitContentLayout 7\<close>, which differs from its own strategy and from the one in use; the
  first layout of group 2 bubbles to group 3, and the before-hook of group 3 receives the
  flag of group 2, which is false.
\<close>

theorem strategyChange_counterexample:
  "prevLayoutStrategy (mgrs demoLaidOut 3) = Some (FitContentLayout 7) \<and>
   strategy (mgrs demoLaidOut 3) = FitContentLayout 3 \<and>
   ctx_strategy (strictContext (mgrs demoLaidOut 3)
                   (bubbledContext (demoStrict Initialization 2) 3)) = FitContentLayout 2 \<and>
   \<not> strategyChange (strictContext (mgrs demoLaidOut 3)
                       (bubbledContext (demoStrict Initialization 2) 3)) \<and>
   map_option (before_flags \<circ> trace)
     (performLayout (Suc (Suc 0)) demoEnv 2 (demoContext Initialization 2) demoLaidOut) =
   Some [(2, False), (3, False)]"
  by (simp add: eval_defs)

text \<open>
  Claim C7, amended. For a pass that is not dropped and whose incoming context carries no
  \<open>strategyChange\<close> field, the flag of the strict context is true exactly when the manager
  has recorded a previous strategy and that one differs from the manager's strategy; when
  the call returns, the before-hook and the event before the layout have received this
  strict context. For two consecutive calls with such contexts, the first on a manager
  without a recorded strategy and carrying no strategy of its own, and the manager's
  strategy replaced by another instance in between: the flag is false in the first call
  and true in the second, which is not dropped. A context that carries a \<open>strategyChange\<close>
  field keeps the carried value. With fuel for the length of the chain of parents the
  call returns.
\<close>

theorem strategyChange_of_plain_context:
  assumes "firstLayoutDone (mgrs w this) \<or> ctx_type context = Initialization"
    and "given_strategyChange context = None"
    and "sc = strictContext (mgrs w this) context"
  shows "(strategyChange sc \<longleftrightarrow>
            prevLayoutStrategy (mgrs w this) \<noteq> None \<and>
            prevLayoutStrategy (mgrs w this) \<noteq> Some (strategy (mgrs w this))) \<and>
         (\<forall>w'. performLayout (Suc n) E this context w = Some w' \<longrightarrow>
            (\<exists>rest. trace w' =
               trace w @ HookBeforeLayout (target context) sc #
                         FireLayoutBefore (target context) sc # rest)) \<and>
         (\<forall>w1 s2 context2.
            prevLayoutStrategy (mgrs w this) = None \<and> given_strategy context = None \<and>
            performLayout (Suc n) E this context w = Some w1 \<and>
            s2 \<noteq> strategy (mgrs w this) \<and> given_strategyChange context2 = None \<longrightarrow>
            \<not> strategyChange sc \<and>
            firstLayoutDone (mgrs (upd_mgr this (\<lambda>mg. mg\<lparr>strategy := s2\<rparr>) w1) this) \<and>
            strategyChange
              (strictContext (mgrs (upd_mgr this (\<lambda>mg. mg\<lparr>strategy := s2\<rparr>) w1) this)
                 context2)) \<and>
         (\<forall>mg c b. given_strategyChange c = Some b \<longrightarrow>
            strategyChange (strictContext mg c) = b) \<and>
         (bubbles_within n (objs w) (target context) \<longrightarrow>
            (\<exists>w'. performLayout (Suc n) E this context w = Some w'))"
proof -
  have flag: "strategyChange sc \<longleftrightarrow>
      prevLayoutStrategy (mgrs w this) \<noteq> None \<and>
      prevLayoutStrategy (mgrs w this) \<noteq> Some (strategy (mgrs w this))"
    using assms(2,3) by (auto simp add: strictContext_def)
  have tr: "\<exists>rest. trace w' =
      trace w @ HookBeforeLayout (target context) sc # FireLayoutBefore (target context) sc # rest"
    if "performLayout (Suc n) E this context w = Some w'" for w'
    using performLayout_pass_trace [OF assms(1) that] assms(3) by auto
  have two: "\<not> strategyChange sc \<and>
      firstLayoutDone (mgrs (upd_mgr this (\<lambda>mg. mg\<lparr>strategy := s2\<rparr>) w1) this) \<and>
      strategyChange
        (strictContext (mgrs (upd_mgr this (\<lambda>mg. mg\<lparr>strategy := s2\<rparr>) w1) this) context2)"
    if "prevLayoutStrategy (mgrs w this) = None" "given_strategy context = None"
      "performLayout (Suc n) E this context w = Some w1"
      "s2 \<noteq> strategy (mgrs w this)" "given_strategyChange context2 = None"
    for w1 s2 context2
  proof -
    have "ctx_strategy (strictContext (mgrs w this) context) = strategy (mgrs w this)"
      using that(2) by (simp add: strictContext_def)
    with performLayout_records [OF assms(1) that(3)]
    have "prevLayoutStrategy (mgrs w1 this) = Some (strategy (mgrs w this))"
      and "firstLayoutDone (mgrs w1 this)" by simp_all
    then show ?thesis
      using that(1,4,5) flag by (simp add: strictContext_def upd_mgr_def)
  qed
  have returns: "bubbles_within n (objs w) (target context) \<longrightarrow>
      (\<exists>w'. performLayout (Suc n) E this context w = Some w')"
    using performLayout_returns [of n w "context" E this] by blast
  have carried: "strategyChange (strictContext mg c) = b"
    if "given_strategyChange c = Some b" for mg c b
    using that by (simp add: strictContext_def)
  show ?thesis using flag tr two carried returns by blast
qed

text \<open>
  Claim C7, amended, on the scene: the first layout of group 2, then a modification with
  the strategy of manager 2 replaced by \<open>CustomLayout 9\<close>.
\<close>

theorem strategyChange_of_plain_context_witness:
  "(firstLayoutDone (mgrs demoWorld 2) \<or> ctx_type (demoContext Initialization 2) = Initialization) \<and>
   given_strategyChange (demoContext Initialization 2) = None \<and>
   given_strategy (demoContext Initialization 2) = None \<and>
   prevLayoutStrategy (mgrs demoWorld 2) = None \<and>
   CustomLayout 9 \<noteq> strategy (mgrs demoWorld 2) \<and>
   given_strategyChange (demoContext Object_modified 2) = None \<and>
   \<not> strategyChange (strictContext (mgrs demoWorld 2) (demoContext Initialization 2)) \<and>
   (\<exists>w1. performLayout (Suc (Suc 0)) demoEnv 2 (demoContext Initialization 2) demoWorld =
            Some w1 \<and>
          strategyChange
            (strictContext (mgrs (upd_mgr 2 (\<lambda>mg. mg\<lparr>strategy := CustomLayout 9\<rparr>) w1) 2)
               (demoContext Object_modified 2)))"
proof -
  let ?c = "demoContext Initialization 2"
  have h1: "firstLayoutDone (mgrs demoWorld 2) \<or> ctx_type ?c = Initialization"
    and h2: "given_strategyChange ?c = None"
    and h3: "given_strategy ?c = None"
    and h4: "prevLayoutStrategy (mgrs demoWorld 2) = None"
    and h5: "CustomLayout 9 \<noteq> strategy (mgrs demoWorld 2)"
    and h6: "given_strategyChange (demoContext Object_modified 2) = None"
    by (simp_all add: demoContext_def demoWorld_def demoManager_def)
  have "performLayout (Suc (Suc 0)) demoEnv 2 ?c demoWorld \<noteq> None"
    by (simp add: eval_defs)
  then obtain w1 where run: "performLayout (Suc (Suc 0)) demoEnv 2 ?c demoWorld = Some w1"
    by blast
  from strategyChange_of_plain_context [OF h1 h2 refl, of "Suc 0" demoEnv] h3 h4 h5 h6 run
  have "\<not> strategyChange (strictContext (mgrs demoWorld 2) ?c) \<and>
        strategyChange
          (strictContext (mgrs (upd_mgr 2 (\<lambda>mg. mg\<lparr>strategy := CustomLayout 9\<rparr>) w1) 2)
             (demoContext Object_modified 2))"
    by blast
  with h1 h2 h3 h4 h5 h6 run show ?thesis by blast
qed

subsection \<open>The path list of the caller\<close>

text \<open>
  Claim C8, as stated, fails for a context with a path list when the layout bubbles: the
  target is pushed to the caller's array in place. On the scene, the caller's array 5 is
  empty before the first layout of group 2 and holds group 2 after it.
\<close>

theorem path_list_counterexample:
  "arrays demoWorld 5 = [] \<and>
   map_option (array_of 5)
     (performLayout (Suc (Suc 0)) demoEnv 2
        ((demoContext Initialization 2)\<lparr>path := Some 5\<rparr>) demoWorld) =
   Some [2]"
  by (simp add: eval_defs array_of_def)

text \<open>
  Claim C8, amended. \<open>performLayout\<close> works on a copy of the incoming context (the model
  passes the context by value: no field of the caller's object is assigned). When the
  call returns, every array that existed before and is not the path list of the context
  is unchanged, so a context without a path list leaves every existing array as it was;
  a path list of the context keeps its former content as a prefix and is only appended
  to; a layout on a container without a parent group leaves every array unchanged; and
  a pass that is not dropped, on a container whose parent group has a layout manager,
  leaves in the path list of the context the former content followed by the container.
  With fuel for the length of the chain of parents the call returns.
\<close>

theorem path_list_only_grows:
  "(\<forall>w'. performLayout (Suc n) E this context w = Some w' \<longrightarrow>
      (\<forall>a. a < next_array w \<and> path context \<noteq> Some a \<longrightarrow> arrays w' a = arrays w a) \<and>
      (\<forall>a. path context = Some a \<longrightarrow> prefix (arrays w a) (arrays w' a)) \<and>
      (group_ref (objs w (target context)) = None \<longrightarrow> arrays w' = arrays w) \<and>
      (\<forall>a p pm. path context = Some a \<and>
         (firstLayoutDone (mgrs w this) \<or> ctx_type context = Initialization) \<and>
         group_ref (objs w (target context)) = Some p \<and> layoutManager (objs w p) = Some pm \<longrightarrow>
         prefix (arrays w a @ [target context]) (arrays w' a))) \<and>
   (bubbles_within n (objs w) (target context) \<longrightarrow>
      (\<exists>w'. performLayout (Suc n) E this context w = Some w'))"
proof -
  have frame: "(\<forall>a. a < next_array w \<and> path context \<noteq> Some a \<longrightarrow> arrays w' a = arrays w a) \<and>
      (\<forall>a. path context = Some a \<longrightarrow> prefix (arrays w a) (arrays w' a)) \<and>
      (group_ref (objs w (target context)) = None \<longrightarrow> arrays w' = arrays w) \<and>
      (\<forall>a p pm. path context = Some a \<and>
         (firstLayoutDone (mgrs w this) \<or> ctx_type context = Initialization) \<and>
         group_ref (objs w (target context)) = Some p \<and> layoutManager (objs w p) = Some pm \<longrightarrow>
         prefix (arrays w a @ [target context]) (arrays w' a))"
    if run: "performLayout (Suc n) E this context w = Some w'" for w'
  proof -
    have pushed: "prefix (arrays w a @ [target context]) (arrays w' a)"
      if "path context = Some a"
        "firstLayoutDone (mgrs w this) \<or> ctx_type context = Initialization"
        "group_ref (objs w (target context)) = Some p" "layoutManager (objs w p) = Some pm"
      for a p pm
      using performLayout_pushes [OF that(2,3,4,1) run] .
    have "arrays w' = arrays w" if "group_ref (objs w (target context)) = None"
    proof (cases "firstLayoutDone (mgrs w this) \<or> ctx_type context = Initialization")
      case True
      then show ?thesis
        using performLayout_top_objs [of w this "context" n E w'] run that by simp
    next
      case False
      then show ?thesis using run by simp
    qed
    then show ?thesis using performLayout_arrays [OF run] pushed by blast
  qed
  have returns: "bubbles_within n (objs w) (target context) \<longrightarrow>
      (\<exists>w'. performLayout (Suc n) E this context w = Some w')"
    using performLayout_returns [of n w "context" E this] by blast
  show ?thesis using frame returns by blast
qed

text \<open>
  Claim C8, amended, on the scene: without a path list the first layout of group 2
  leaves array 5 empty; with array 5 as path list, the empty content stays a prefix.
\<close>

theorem path_list_only_grows_witness:
  "(\<exists>w'. performLayout (Suc (Suc 0)) demoEnv 2 (demoContext Initialization 2) demoWorld =
            Some w' \<and>
          5 < next_array demoWorld \<and> path (demoContext Initialization 2) \<noteq> Some 5 \<and>
          arrays w' 5 = []) \<and>
   (\<exists>w'. performLayout (Suc (Suc 0)) demoEnv 2
            ((demoContext Initialization 2)\<lparr>path := Some 5\<rparr>) demoWorld = Some w' \<and>
          prefix (arrays demoWorld 5) (arrays w' 5) \<and> prefix [2] (arrays w' 5))"
proof -
  let ?c = "demoContext Initialization 2"
  have "performLayout (Suc (Suc 0)) demoEnv 2 ?c demoWorld \<noteq> None"
    by (simp add: eval_defs)
  then obtain w1 where run1: "performLayout (Suc (Suc 0)) demoEnv 2 ?c demoWorld = Some w1"
    by blast
  have "performLayout (Suc (Suc 0)) demoEnv 2 (?c\<lparr>path := Some 5\<rparr>) demoWorld \<noteq> None"
    by (simp add: eval_defs)
  then obtain w2 where
    run2: "performLayout (Suc (Suc 0)) demoEnv 2 (?c\<lparr>path := Some 5\<rparr>) demoWorld = Some w2"
    by blast
  have facts: "5 < next_array demoWorld" "path ?c \<noteq> Some 5" "arrays demoWorld 5 = []"
    "path (?c\<lparr>path := Some 5\<rparr>) = Some 5"
    by (simp_all add: demoWorld_def demoContext_def)
  have parent: "firstLayoutDone (mgrs demoWorld 2) \<or>
      ctx_type (?c\<lparr>path := Some 5\<rparr>) = Initialization"
    "group_ref (objs demoWorld (target (?c\<lparr>path := Some 5\<rparr>))) = Some 3"
    "layoutManager (objs demoWorld 3) = Some 3" "target (?c\<lparr>path := Some 5\<rparr>) = 2"
    by (simp_all add: demoWorld_def demoContext_def demoObject_def)
  from path_list_only_grows [of "Suc 0" demoEnv 2 ?c demoWorld] run1 facts
  have "arrays w1 5 = []" by simp
  moreover from path_list_only_grows [of "Suc 0" demoEnv 2 "?c\<lparr>path := Some 5\<rparr>" demoWorld]
    run2 facts parent
  have "prefix (arrays demoWorld 5) (arrays w2 5)"
    and "prefix (arrays demoWorld 5 @ [target (?c\<lparr>path := Some 5\<rparr>)]) (arrays w2 5)"
    by blast+
  then have "prefix (arrays demoWorld 5) (arrays w2 5) \<and> prefix [2] (arrays w2 5)"
    using facts(3) parent(4) by simp
  ultimately show ?thesis using run1 run2 facts by blast
qed

subsection \<open>The factory helper\<close>

text \<open>
  Claim C9, as stated, fails on the empty list, for which a new group is returned and no
  object, and for options that carry a \<open>layoutManager\<close>, which replaces the default manager
  (number 8 on the scene) of the new group.
\<close>

theorem groupSVGElements_counterexample:
  "fst (groupSVGElements [] None demoWorld) = NewGroup [] [''layoutManager'' \<mapsto> ManagerRef 8] \<and>
   fst (groupSVGElements [2, 4] (Some [''layoutManager'' \<mapsto> ManagerRef 3]) demoWorld) =
     NewGroup [2, 4] [''layoutManager'' \<mapsto> ManagerRef 3] \<and>
   next_manager demoWorld = 8"
  by (simp add: groupSVGElements_def newLayoutManager_def demoWorld_def)

text \<open>
  Claim C9, amended. A list of exactly one object yields that object and changes nothing.
  Every other list, the empty one too, yields a new group of the listed objects; a new
  manager with a new \<open>FitContentLayout\<close> strategy, no layout done and no subscription is
  created, and it is the \<open>layoutManager\<close> of the group unless the options carry a
  \<open>layoutManager\<close>, which then is the one of the group; every other property of the group
  is the one of the options.
\<close>

theorem groupSVGElements_result:
  "(length elements = 1 \<longrightarrow>
      groupSVGElements elements options w = (Element (elements ! 0), w)) \<and>
   (length elements \<noteq> 1 \<longrightarrow>
      (\<exists>props w'.
         groupSVGElements elements options w = (NewGroup elements props, w') \<and>
         props ''layoutManager'' =
           (case (case options of None \<Rightarrow> None | Some opts \<Rightarrow> opts ''layoutManager'') of
              Some v \<Rightarrow> Some v
            | None \<Rightarrow> Some (ManagerRef (next_manager w))) \<and>
         (\<forall>key. key \<noteq> ''layoutManager'' \<longrightarrow>
            props key = (case options of None \<Rightarrow> None | Some opts \<Rightarrow> opts key)) \<and>
         mgrs w' (next_manager w) =
           \<lparr>firstLayoutDone = False, prevLayoutStrategy = None,
            strategy = FitContentLayout (next_strategy w), subscriptions = Map.empty\<rparr> \<and>
         (\<forall>k. k \<noteq> next_manager w \<longrightarrow> mgrs w' k = mgrs w k) \<and>
         objs w' = objs w))"
  by (auto simp add: groupSVGElements_def newLayoutManager_def map_add_def
      split: option.splits)

text \<open>Claim C9, amended, on the scene: one object, and two objects without options.\<close>

theorem groupSVGElements_result_witness:
  "length [4 :: nat] = 1 \<and> groupSVGElements [4] None demoWorld = (Element 4, demoWorld) \<and>
   length [2 :: nat, 4] \<noteq> 1 \<and>
   (\<exists>props w'. groupSVGElements [2, 4] None demoWorld = (NewGroup [2, 4] props, w') \<and>
      props ''layoutManager'' = Some (ManagerRef 8) \<and>
      strategy (mgrs w' 8) = FitContentLayout 8 \<and> \<not> firstLayoutDone (mgrs w' 8))"
proof -
  have one: "groupSVGElements [4] None demoWorld = (Element 4, demoWorld)"
    using groupSVGElements_result [of "[4]" None demoWorld] by simp
  have nxt: "next_manager demoWorld = 8" "next_strategy demoWorld = 8"
    by (simp_all add: demoWorld_def)
  from groupSVGElements_result [of "[2, 4]" None demoWorld]
  obtain props w' where "groupSVGElements [2, 4] None demoWorld = (NewGroup [2, 4] props, w')"
    "props ''layoutManager'' = Some (ManagerRef (next_manager demoWorld))"
    "mgrs w' (next_manager demoWorld) =
       \<lparr>firstLayoutDone = False, prevLayoutStrategy = None,
        strategy = FitContentLayout (next_strategy demoWorld), subscriptions = Map.empty\<rparr>"
    by auto
  then have "\<exists>props w'. groupSVGElements [2, 4] None demoWorld = (NewGroup [2, 4] props, w') \<and>
      props ''layoutManager'' = Some (ManagerRef 8) \<and>
      strategy (mgrs w' 8) = FitContentLayout 8 \<and> \<not> firstLayoutDone (mgrs w' 8)"
    by (auto simp add: nxt)
  with one show ?thesis by simp
qed

subsection \<open>The strategy of a bubbled context\<close>

text \<open>
  Claim C10, as stated, fails for a parent that drops the request and for a chain of more
  than two groups. On the scene where manager 2 alone has done its first layout, a
  modification of group 2 bubbles to group 3, whose manager drops it and records nothing.
  On the scene where group 3 lies in group 6, the first layout of group 2 reaches manager
  6, which records \<open>FitContentLayout 2\<close>, the strategy of manager 2, and not the strategy
  \<open>FitContentLayout 3\<close> of manager 3, the manager of its child.
\<close>

theorem bubbled_strategy_counterexample:
  "firstLayoutDone (mgrs demoChildDone 2) \<and> \<not> firstLayoutDone (mgrs demoChildDone 3) \<and>
   strategy (mgrs demoChildDone 2) = FitContentLayout 2 \<and>
   map_option (prevLayoutStrategy \<circ> manager_of 2)
     (performLayout (Suc (Suc 0)) demoEnv 2 (demoContext Object_modified 2) demoChildDone) =
   Some (Some (FitContentLayout 2)) \<and>
   map_option (prevLayoutStrategy \<circ> manager_of 3)
     (performLayout (Suc (Suc 0)) demoEnv 2 (demoContext Object_modified 2) demoChildDone) =
   Some None \<and>
   strategy (mgrs demoChain 3) = FitContentLayout 3 \<and>
   map_option (prevLayoutStrategy \<circ> manager_of 3)
     (performLayout (Suc (Suc (Suc 0))) demoEnv 2 (demoContext Initialization 2) demoChain) =
   Some (Some (FitContentLayout 2)) \<and>
   map_option (prevLayoutStrategy \<circ> manager_of 6)
     (performLayout (Suc (Suc (Suc 0))) demoEnv 2 (demoContext Initialization 2) demoChain) =
   Some (Some (FitContentLayout 2))"
  by (simp add: eval_defs demoChildDone_def demoChain_def manager_of_def)

text \<open>
  Claim C10, amended. A context that carries \<open>strategy\<close>, \<open>prevStrategy\<close> and
  \<open>strategyChange\<close> keeps them in the strict context, whatever the manager holds; a
  context without a \<open>strategy\<close> gets the one of the manager. So the strict context that
  the parent's manager builds from a bubbled context is the strict context of the child
  with only \<open>target\<close> replaced, and the context that the parent bubbles further carries the
  same strategy again: along the whole chain the strategy is the one of the strict
  context in which the bubbling started. When the parent's pass is not dropped and
  returns, the parent's manager has recorded that carried strategy as its previous
  strategy; a parent's manager whose first layout is not done drops a bubbled context
  whose type is not \<open>initialization\<close> and changes nothing. The strategy field of the
  parent's manager is not used: with any other strategy in that field the call does the
  same. With fuel for the length of the chain of parents the call returns.
\<close>

theorem bubbled_context_overrides:
  assumes "bc = bubbledContext sc parent"
  shows "(\<forall>mg c s p b.
            given_strategy c = Some s \<and> given_prevStrategy c = Some p \<and>
            given_strategyChange c = Some b \<longrightarrow>
            ctx_strategy (strictContext mg c) = s \<and> prevStrategy (strictContext mg c) = p \<and>
            strategyChange (strictContext mg c) = b) \<and>
         (\<forall>mg c. given_strategy c = None \<longrightarrow> ctx_strategy (strictContext mg c) = strategy mg) \<and>
         strictContext (mgrs w pm) bc = sc\<lparr>sc_target := parent\<rparr> \<and>
         (\<forall>mg mg' v p'.
            ctx_strategy
              (strictContext mg' (bubbledContext (fst (pushPath (strictContext mg bc) v)) p')) =
            ctx_strategy sc) \<and>
         (firstLayoutDone (mgrs w pm) \<or> ctx_type bc = Initialization \<longrightarrow>
            (\<forall>w'. performLayout (Suc n) E pm bc w = Some w' \<longrightarrow>
               prevLayoutStrategy (mgrs w' pm) = Some (ctx_strategy sc))) \<and>
         (\<not> firstLayoutDone (mgrs w pm) \<and> ctx_type bc \<noteq> Initialization \<longrightarrow>
            performLayout (Suc n) E pm bc w = Some w) \<and>
         (\<forall>s'. performLayout (Suc n) E pm bc (setStrategy pm s' w) =
               map_option (setStrategy pm s') (performLayout (Suc n) E pm bc w)) \<and>
         (bubbles_within n (objs w) parent \<longrightarrow>
            (\<exists>w'. performLayout (Suc n) E pm bc w = Some w'))"
proof -
  have strict: "strictContext mg bc = sc\<lparr>sc_target := parent\<rparr>" for mg
    using assms by (simp add: strictContext_def bubbledContext_def)
  have chain: "ctx_strategy
      (strictContext mg' (bubbledContext (fst (pushPath (strictContext mg bc) v)) p')) =
      ctx_strategy sc" for mg mg' v p'
  proof -
    have push: "ctx_strategy (fst (pushPath x v)) = ctx_strategy x" for x
      by (simp add: pushPath_def split: option.splits)
    have "ctx_strategy (strictContext mg' (bubbledContext y p')) = ctx_strategy y" for y
      by (simp add: strictContext_def bubbledContext_def)
    then show ?thesis by (simp only: push strict) simp
  qed
  have rec: "prevLayoutStrategy (mgrs w' pm) = Some (ctx_strategy sc)"
    if "firstLayoutDone (mgrs w pm) \<or> ctx_type bc = Initialization"
      "performLayout (Suc n) E pm bc w = Some w'" for w'
    using performLayout_records [OF that] by (simp add: strict)
  have dropped: "performLayout (Suc n) E pm bc w = Some w"
    if "\<not> firstLayoutDone (mgrs w pm) \<and> ctx_type bc \<noteq> Initialization"
    using that by simp
  have carried: "given_strategy bc \<noteq> None" "given_strategyChange bc \<noteq> None"
    using assms by (simp_all add: bubbledContext_def)
  have indep: "performLayout (Suc n) E pm bc (setStrategy pm s' w) =
      map_option (setStrategy pm s') (performLayout (Suc n) E pm bc w)" for s'
    by (rule performLayout_setStrategy [OF carried])
  have "target bc = parent" using assms by (simp add: bubbledContext_def)
  then have returns: "bubbles_within n (objs w) parent \<longrightarrow>
      (\<exists>w'. performLayout (Suc n) E pm bc w = Some w')"
    using performLayout_returns [of n w bc E pm] by simp
  have carry: "ctx_strategy (strictContext mg c) = s \<and> prevStrategy (strictContext mg c) = p \<and>
      strategyChange (strictContext mg c) = b"
    if "given_strategy c = Some s" "given_prevStrategy c = Some p" "given_strategyChange c = Some b"
    for mg c s p b
    using that by (simp add: strictContext_def)
  have own: "ctx_strategy (strictContext mg c) = strategy mg" if "given_strategy c = None" for mg c
    using that by (simp add: strictContext_def)
  show ?thesis
    using strict chain rec dropped indep returns carry own by blast
qed

text \<open>
  Claim C10, amended, on the scene: manager 3, whose strategy is \<open>FitContentLayout 3\<close>,
  receives the bubbled context of group 2 on its first layout and records
  \<open>FitContentLayout 2\<close>; where manager 2 alone has done its first layout, manager 3 drops
  the bubbled modification.
\<close>

theorem bubbled_context_overrides_witness:
  "(firstLayoutDone (mgrs demoWorld 3) \<or>
    ctx_type (bubbledContext (demoStrict Initialization 2) 3) = Initialization) \<and>
   strategy (mgrs demoWorld 3) = FitContentLayout 3 \<and>
   ctx_strategy (demoStrict Initialization 2) = FitContentLayout 2 \<and>
   ctx_strategy (strictContext (mgrs demoWorld 3)
                   (bubbledContext (demoStrict Initialization 2) 3)) = FitContentLayout 2 \<and>
   (\<exists>w'. performLayout (Suc 0) demoEnv 3 (bubbledContext (demoStrict Initialization 2) 3)
            demoWorld = Some w' \<and>
          prevLayoutStrategy (mgrs w' 3) = Some (FitContentLayout 2)) \<and>
   \<not> firstLayoutDone (mgrs demoChildDone 3) \<and>
   ctx_type (bubbledContext (demoStrict Object_modified 2) 3) \<noteq> Initialization \<and>
   performLayout (Suc 0) demoEnv 3 (bubbledContext (demoStrict Object_modified 2) 3)
     demoChildDone = Some demoChildDone"
proof -
  let ?bc = "bubbledContext (demoStrict Initialization 2) 3"
  let ?bm = "bubbledContext (demoStrict Object_modified 2) 3"
  have h: "firstLayoutDone (mgrs demoWorld 3) \<or> ctx_type ?bc = Initialization"
    by (simp add: bubbledContext_def demo_defs)
  have own: "strategy (mgrs demoWorld 3) = FitContentLayout 3"
    "ctx_strategy (demoStrict Initialization 2) = FitContentLayout 2"
    by (simp_all add: demo_defs)
  have "performLayout (Suc 0) demoEnv 3 ?bc demoWorld \<noteq> None"
    by (simp add: eval_defs)
  then obtain w' where run: "performLayout (Suc 0) demoEnv 3 ?bc demoWorld = Some w'"
    by blast
  note inst = bubbled_context_overrides
    [OF refl, where sc = "demoStrict Initialization 2" and parent = 3 and w = demoWorld
       and pm = 3 and n = 0 and E = demoEnv]
  from inst have "strictContext (mgrs demoWorld 3) ?bc =
      (demoStrict Initialization 2)\<lparr>sc_target := 3\<rparr>" by blast
  then have strict: "ctx_strategy (strictContext (mgrs demoWorld 3) ?bc) = FitContentLayout 2"
    using own(2) by simp
  from inst h run have "prevLayoutStrategy (mgrs w' 3) =
      Some (ctx_strategy (demoStrict Initialization 2))" by blast
  then have rec: "prevLayoutStrategy (mgrs w' 3) = Some (FitContentLayout 2)"
    using own(2) by simp
  have d: "\<not> firstLayoutDone (mgrs demoChildDone 3)" "ctx_type ?bm \<noteq> Initialization"
    by (simp_all add: bubbledContext_def demo_defs demoChildDone_def upd_mgr_def)
  note inst2 = bubbled_context_overrides
    [OF refl, where sc = "demoStrict Object_modified 2" and parent = 3 and w = demoChildDone
       and pm = 3 and n = 0 and E = demoEnv]
  from inst2 d have "performLayout (Suc 0) demoEnv 3 ?bm demoChildDone = Some demoChildDone"
    by blast
  with h own strict run rec d show ?thesis by blast
qed

end
